theory Spec2Isabelle
  imports Complex_Main "HOL-Library.Sublist" "HOL-Library.AList" "HOL-Library.Log_Nat"
begin

section \<open>Strings and character classes of the regular expressions\<close>

text \<open>
  A JavaScript string is modelled as a \<open>string\<close>; a \<open>char\<close> stands for the code unit
  of the same number, so the model covers the code units 0 to 255.  The classes below are
  the restrictions of \<open>\d\<close>, \<open>\s\<close> and of the line terminators (which \<open>.\<close> does not
  match) to that range.
\<close>

definition isDigit :: "char \<Rightarrow> bool" where
  "isDigit c \<longleftrightarrow> c \<in> set ''0123456789''"

definition isSpace :: "char \<Rightarrow> bool" where
  "isSpace c \<longleftrightarrow> c \<in> {CHR 0x09, CHR 0x0A, CHR 0x0B, CHR 0x0C, CHR 0x0D, CHR '' '', CHR 0xA0}"

definition isLineTerminator :: "char \<Rightarrow> bool" where
  "isLineTerminator c \<longleftrightarrow> c \<in> {CHR 0x0A, CHR 0x0D}"

definition digitVal :: "char \<Rightarrow> nat" where
  "digitVal c = of_char c - 48"

definition digitsVal :: "string \<Rightarrow> nat" where
  "digitsVal ds = foldl (\<lambda>acc c. 10 * acc + digitVal c) 0 ds"

section \<open>getWidthPercent\<close>

text \<open>
  \<open>widthMatch\<close> is the match of \<^verbatim>\<open>/^(\d+(?:\.\d+)?)%$/\<close>: the longest run of digits,
  then either \<open>%\<close> and the end, or a dot, a non-empty run of digits, \<open>%\<close> and the end.
  It returns the integer digits and the fraction digits (empty without a fraction).
\<close>

definition widthMatch :: "string \<Rightarrow> (string \<times> string) option" where
  "widthMatch s =
     (let d1 = takeWhile isDigit s; r1 = dropWhile isDigit s in
      if d1 = [] then None
      else if r1 = ''%'' then Some (d1, [])
      else (case r1 of
              c # r2 \<Rightarrow>
                if c = CHR ''.'' then
                  (let d2 = takeWhile isDigit r2; r3 = dropWhile isDigit r2 in
                   if d2 \<noteq> [] \<and> r3 = ''%'' then Some (d1, d2) else None)
                else None
            | [] \<Rightarrow> None))"

text \<open>
  The number that \<open>parseFloat\<close> returns for the captured group is the double nearest to
  the mathematical value of the decimal literal.  \<open>decimalValue\<close> is that mathematical
  value.  (ECMAScript lets an implementation replace the digits behind the twentieth
  significant digit before it rounds; the model rounds the exact value.)
\<close>

definition decimalValue :: "string \<times> string \<Rightarrow> rat" where
  "decimalValue p = of_nat (digitsVal (fst p)) + of_nat (digitsVal (snd p)) / 10 ^ length (snd p)"

text \<open>
  A number that is not negative and not NaN: a finite double, given by its exact value,
  or \<open>+Infinity\<close>.
\<close>

datatype jsNumber = Finite rat | Infinity

definition pow2 :: "int \<Rightarrow> rat" where
  "pow2 k = (if 0 \<le> k then 2 ^ nat k else 1 / 2 ^ nat (- k))"

text \<open>
  The binary exponent of a positive rational \<open>x\<close>, the \<open>e\<close> with \<open>2 ^ e \<le> x < 2 ^ (e + 1)\<close>:
  the difference of the bit lengths of numerator and denominator, or one less.
\<close>

definition binaryExponent :: "rat \<Rightarrow> int" where
  "binaryExponent x =
     (let k = bitlen (fst (quotient_of x)) - bitlen (snd (quotient_of x)) in
      if pow2 k \<le> x then k else k - 1)"

text \<open>
  The double for a rational that is not negative (IEEE 754 binary64, round to nearest,
  ties to even): the spacing of the doubles around \<open>x\<close> is \<open>2 ^ (e - 52)\<close> for the binary
  exponent \<open>e\<close> of \<open>x\<close>, and \<open>2 ^ - 1074\<close> below the normal range; \<open>x\<close> is rounded to the
  nearest multiple of the spacing, and a result of \<open>2 ^ 1024\<close> or more is \<open>Infinity\<close>.
\<close>

definition roundToDouble :: "rat \<Rightarrow> jsNumber" where
  "roundToDouble x =
     (if x = 0 then Finite 0
      else
        (let e = max (binaryExponent x) (- 1022);
             ulp = pow2 (e - 52);
             q = x / ulp;
             f = \<lfloor>q\<rfloor>;
             n = (if q - of_int f < 1 / 2 then f
                  else if 1 / 2 < q - of_int f then f + 1
                  else if even f then f else f + 1);
             r = of_int n * ulp
         in if pow2 1024 \<le> r then Infinity else Finite r))"

definition parseFloat :: "string \<times> string \<Rightarrow> jsNumber" where
  "parseFloat m = roundToDouble (decimalValue m)"

text \<open>The comparisons of the source between a number and a constant.\<close>

definition numLessEq :: "jsNumber \<Rightarrow> rat \<Rightarrow> bool" where
  "numLessEq v c \<longleftrightarrow> (case v of Finite r \<Rightarrow> r \<le> c | Infinity \<Rightarrow> False)"

definition numLess :: "jsNumber \<Rightarrow> rat \<Rightarrow> bool" where
  "numLess v c \<longleftrightarrow> (case v of Finite r \<Rightarrow> r < c | Infinity \<Rightarrow> False)"

definition numGreater :: "jsNumber \<Rightarrow> rat \<Rightarrow> bool" where
  "numGreater v c \<longleftrightarrow> (case v of Finite r \<Rightarrow> c < r | Infinity \<Rightarrow> True)"

text \<open>
  The argument is \<open>element.style.width\<close>; \<open>None\<close> stands for a missing element or a
  missing style object.  The empty string is falsy and gives null as well.
\<close>

definition getWidthPercent :: "string option \<Rightarrow> jsNumber option" where
  "getWidthPercent w =
     (case w of
        None \<Rightarrow> None
      | Some widthStr \<Rightarrow>
          if widthStr = [] then None
          else (case widthMatch widthStr of
                  Some m \<Rightarrow> Some (parseFloat m)
                | None \<Rightarrow> None))"

text \<open>The completion test of checkTimer: \<^verbatim>\<open>width !== null && width <= 0\<close>.\<close>

definition widthCompleted :: "jsNumber option \<Rightarrow> bool" where
  "widthCompleted width \<longleftrightarrow> (case width of None \<Rightarrow> False | Some v \<Rightarrow> numLessEq v 0)"

text \<open>
  The words of the specification: an unsigned decimal number immediately followed by
  a percent sign.
\<close>

definition unsignedDecimalPercent :: "string \<Rightarrow> bool" where
  "unsignedDecimalPercent s \<longleftrightarrow>
     (\<exists>d1. d1 \<noteq> [] \<and> (\<forall>c \<in> set d1. isDigit c) \<and>
        (s = d1 @ ''%'' \<or>
         (\<exists>d2. d2 \<noteq> [] \<and> (\<forall>c \<in> set d2. isDigit c) \<and> s = d1 @ ''.'' @ d2 @ ''%'')))"


section \<open>String operations of the source\<close>

text \<open>\<^verbatim>\<open>String.prototype.trim\<close>: white space and line terminators removed at both ends.\<close>

definition trim :: "string \<Rightarrow> string" where
  "trim s = rev (dropWhile isSpace (rev (dropWhile isSpace s)))"

text \<open>
  \<^verbatim>\<open>toLowerCase\<close> on the code units 0 to 255: the letters A to Z and the upper-case
  letters of Latin-1 (0xC0 to 0xDE without the multiplication sign 0xD7) move up by 32.
\<close>

definition lowerChar :: "char \<Rightarrow> char" where
  "lowerChar c =
     (let n = (of_char c :: nat) in
      if (65 \<le> n \<and> n \<le> 90) \<or> (192 \<le> n \<and> n \<le> 222 \<and> n \<noteq> 215)
      then char_of (n + 32) else c)"

definition toLowerCase :: "string \<Rightarrow> string" where
  "toLowerCase s = map lowerChar s"

text \<open>\<^verbatim>\<open>s.substring(s.indexOf('-') + 1)\<close>; indexOf gives -1 when there is no dash.\<close>

definition afterFirstDash :: "string \<Rightarrow> string" where
  "afterFirstDash s = (if CHR ''-'' \<in> set s then tl (dropWhile (\<lambda>c. c \<noteq> CHR ''-'') s) else s)"

text \<open>
  A JavaScript number that the source obtains from \<open>parseInt\<close> or leaves null is an
  \<open>int option\<close>: \<open>None\<close> stands for null and for NaN, which the source never tells
  apart (both are falsy, and neither is \<open>===\<close> to a number).  The loss of precision of
  doubles beyond \<open>2 ^ 53\<close> is not modelled.
\<close>

definition truthy :: "int option \<Rightarrow> bool" where
  "truthy n \<longleftrightarrow> (case n of None \<Rightarrow> False | Some v \<Rightarrow> v \<noteq> 0)"

definition truthyStr :: "string option \<Rightarrow> bool" where
  "truthyStr s \<longleftrightarrow> (case s of None \<Rightarrow> False | Some v \<Rightarrow> v \<noteq> [])"

definition isHexDigit :: "char \<Rightarrow> bool" where
  "isHexDigit c \<longleftrightarrow> c \<in> set ''0123456789abcdefABCDEF''"

definition hexDigitVal :: "char \<Rightarrow> nat" where
  "hexDigitVal c =
     (let n = (of_char c :: nat) in
      if n \<le> 57 then n - 48 else if n \<le> 70 then n - 55 else n - 87)"

definition hexVal :: "string \<Rightarrow> nat" where
  "hexVal ds = foldl (\<lambda>acc c. 16 * acc + hexDigitVal c) 0 ds"

text \<open>
  \<open>parseInt\<close> with one argument: leading white space is skipped, a sign is read, a prefix
  \<open>0x\<close> or \<open>0X\<close> selects radix 16, and the longest run of digits is converted; without
  a digit the result is NaN.
\<close>

definition parseMagnitude :: "string \<Rightarrow> nat option" where
  "parseMagnitude s =
     (if take 2 s = ''0x'' \<or> take 2 s = ''0X'' then
        (let hs = takeWhile isHexDigit (drop 2 s) in
         if hs = [] then None else Some (hexVal hs))
      else
        (let ds = takeWhile isDigit s in
         if ds = [] then None else Some (digitsVal ds)))"

definition parseInt :: "string \<Rightarrow> int option" where
  "parseInt s =
     (let t = dropWhile isSpace s in
      case t of
        [] \<Rightarrow> None
      | c # r \<Rightarrow>
          if c = CHR ''-'' then map_option (\<lambda>n. - int n) (parseMagnitude r)
          else if c = CHR ''+'' then map_option int (parseMagnitude r)
          else map_option int (parseMagnitude t))"

section \<open>Cleaning of the item name\<close>

definition isSepChar :: "char \<Rightarrow> bool" where
  "isSepChar c \<longleftrightarrow> isSpace c \<or> c = CHR ''-''"

text \<open>
  \<open>bidPrefixMatch\<close> is the capture group of \<^verbatim>\<open>/^\d+[\s-]+(.+)$/\<close>.  The digits and the
  separators are disjoint classes, so \<open>\d+\<close> takes the whole run of digits.  \<open>[\s-]+\<close>
  is greedy: it takes the whole run of separators when something is left for \<open>(.+)\<close>,
  and otherwise gives back its last character.  \<open>.\<close> matches no line terminator and
  \<open>$\<close> is the end of the string, so the group must reach the end of the string without
  meeting a line terminator.
\<close>

definition bidPrefixMatch :: "string \<Rightarrow> string option" where
  "bidPrefixMatch s =
     (let ds = takeWhile isDigit s;
          r = dropWhile isDigit s;
          seps = takeWhile isSepChar r;
          t = dropWhile isSepChar r in
      if ds = [] \<or> seps = [] then None
      else if t \<noteq> [] then (if \<exists>c \<in> set t. isLineTerminator c then None else Some t)
      else if length seps \<ge> 2 \<and> \<not> isLineTerminator (last seps) then Some [last seps]
      else None)"

text \<open>
  \<open>noSpaceMatch\<close> is the capture group of \<^verbatim>\<open>/^\d+(.+)$/\<close>: the whole run of digits when
  something follows it, otherwise all digits but the last, which is the group.
\<close>

definition noSpaceMatch :: "string \<Rightarrow> string option" where
  "noSpaceMatch s =
     (let ds = takeWhile isDigit s;
          t = dropWhile isDigit s in
      if ds = [] then None
      else if t \<noteq> [] then (if \<exists>c \<in> set t. isLineTerminator c then None else Some t)
      else if length ds \<ge> 2 then Some [last ds]
      else None)"

text \<open>
  The cleaning as the source writes it three times (extractTimerContext,
  extractTableContext, showNotification): the first pattern, else the second.
\<close>

definition cleanBidPrefix :: "string \<Rightarrow> string" where
  "cleanBidPrefix itemName =
     (case bidPrefixMatch itemName of
        Some g \<Rightarrow> trim g
      | None \<Rightarrow>
          (case noSpaceMatch itemName of
             Some g \<Rightarrow> if length g > 0 then trim g else itemName
           | None \<Rightarrow> itemName))"

text \<open>The final cleanup of showNotification trims the item name first.\<close>

definition notificationItemName :: "string \<Rightarrow> string" where
  "notificationItemName itemName = cleanBidPrefix (trim itemName)"

text \<open>The sanitising of a winner prefix, at the end of both extractors.\<close>

definition stripWinnerPrefix :: "string option \<Rightarrow> string option \<Rightarrow> string option" where
  "stripWinnerPrefix itemName winner =
     (case (itemName, winner) of
        (Some i, Some wn) \<Rightarrow>
          if i \<noteq> [] \<and> wn \<noteq> [] then
            (let w = toLowerCase (trim wn); n = trim i in
             if prefix (w @ '' -'') (toLowerCase n) then Some (trim (afterFirstDash n))
             else Some i)
          else Some i
      | _ \<Rightarrow> itemName)"


section \<open>Auction contexts\<close>

text \<open>An entry of rollOffWinners and actualWinners: \<^verbatim>\<open>{ winner, bid }\<close>.\<close>

record entry =
  ewinner :: string
  ebid :: "int option"

text \<open>
  The context object that both extractors return.  \<open>None\<close> stands for null or undefined.
  The fields timerWidth, rowNumber, timestamp and rawWinnerText, which only the log reads,
  are left out.
\<close>

record auctionContext =
  winner :: "string option"
  bidAmount :: "int option"
  itemName :: "string option"
  quantity :: "nat option"
  noBid :: bool
  isTableStructure :: bool
  rollOffWinners :: "entry list option"
  rollOffBid :: "int option"
  isRollOff :: bool
  multipleWinners :: bool
  actualWinners :: "entry list option"

text \<open>\<^verbatim>\<open>quantity || 1\<close> and \<^verbatim>\<open>w.bid || 0\<close>.\<close>

definition quantityOr1 :: "nat option \<Rightarrow> nat" where
  "quantityOr1 q = (case q of None \<Rightarrow> 1 | Some n \<Rightarrow> if n = 0 then 1 else n)"

definition bidOr0 :: "entry \<Rightarrow> int" where
  "bidOr0 w = (case ebid w of None \<Rightarrow> 0 | Some b \<Rightarrow> b)"

text \<open>
  The roll-off test and the choice of the actual winners: the same statements in
  extractTimerContext and in extractTableContext.  The sort of the source is stable, as
  \<open>sort_key\<close> is; \<open>Math.max\<close> is only reached with a non-empty list.
\<close>

definition computeIsRollOff :: "entry list \<Rightarrow> int option \<Rightarrow> nat option \<Rightarrow> bool" where
  "computeIsRollOff rws rob q \<longleftrightarrow>
     length rws > 1 \<and> rob \<noteq> None \<and> length rws > quantityOr1 q"

definition computeActualWinners ::
  "bool \<Rightarrow> entry list \<Rightarrow> int option \<Rightarrow> nat option \<Rightarrow> string option \<Rightarrow> entry list" where
  "computeActualWinners rollOff rws bidAmt q win =
     (if rollOff then rws
      else if length rws > 0 \<and> truthy bidAmt then
        (if q \<noteq> None \<and> the q > 1 \<and> length rws > 0 then
           take (the q) (sort_key (\<lambda>w. - bidOr0 w) rws)
         else
           (let highestBid = Max (set (map bidOr0 rws));
                aw = filter (\<lambda>w. ebid w = Some highestBid) rws in
            if length aw > 1 \<and> (q = None \<or> q = Some 0 \<or> q = Some 1) then [hd aw] else aw))
      else if truthyStr win then [\<lparr>ewinner = the win, ebid = bidAmt\<rparr>]
      else [])"

section \<open>extractTableContext\<close>

text \<open>
  What the extractors read of a table cell: its text content, the \<open>a\<close> elements inside
  it in document order (href attribute, empty when absent, and text content), and the
  value of the first \<^verbatim>\<open>input[type="number"]\<close> inside it.
\<close>

record cell =
  textContent :: string
  links :: "(string \<times> string) list"
  numberInput :: "string option"

text \<open>
  What extractTableContext reads of the document: the \<open>td\<close> cells of the closest row of
  the timer (\<open>None\<close> without such a row) and the cells of every row below the parent of
  that row (\<open>None\<close> when the row has no parent).
\<close>

record tableDom =
  timerRow :: "cell list option"
  parentRows :: "cell list list option"

text \<open>\<^verbatim>\<open>cells[i]\<close>, undefined beyond the end.\<close>

definition cellAt :: "cell list \<Rightarrow> nat \<Rightarrow> cell option" where
  "cellAt cells i = (if i < length cells then Some (cells ! i) else None)"

text \<open>\<^verbatim>\<open>itemText.match(/x\s*(\d+)$/)\<close> at one position: the digits of the group.\<close>

definition quantityTail :: "string \<Rightarrow> string option" where
  "quantityTail s =
     (case s of
        [] \<Rightarrow> None
      | c # r \<Rightarrow>
          if c = CHR ''x'' then
            (let ds = dropWhile isSpace r in
             if ds \<noteq> [] \<and> (\<forall>d \<in> set ds. isDigit d) then Some ds else None)
          else None)"

text \<open>A pattern without \<open>^\<close> is tried at every position from the left.\<close>

fun searchFrom :: "(string \<Rightarrow> 'a option) \<Rightarrow> string \<Rightarrow> string \<Rightarrow> (string \<times> 'a) option" where
  "searchFrom m pre [] = map_option (Pair pre) (m [])"
| "searchFrom m pre (c # cs) =
     (case m (c # cs) of
        Some r \<Rightarrow> Some (pre, r)
      | None \<Rightarrow> searchFrom m (pre @ [c]) cs)"

definition quantityMatch :: "string \<Rightarrow> string option" where
  "quantityMatch itemText = map_option snd (searchFrom quantityTail [] itemText)"

text \<open>\<^verbatim>\<open>itemText.replace(/\s*x\s*\d+$/, '')\<close>: the text before the leftmost match.\<close>

definition removeQuantity :: "string \<Rightarrow> string" where
  "removeQuantity itemText =
     (case searchFrom (\<lambda>s. quantityTail (dropWhile isSpace s)) [] itemText of
        Some (pre, _) \<Rightarrow> pre
      | None \<Rightarrow> itemText)"

text \<open>The rows that share the bid of the timer's row, with the name of their link.\<close>

definition rowEntry :: "cell list \<Rightarrow> string option \<times> int option" where
  "rowEntry cells =
     ((case cellAt cells 1 of
         None \<Rightarrow> None
       | Some c \<Rightarrow> (case links c of [] \<Rightarrow> None | l # _ \<Rightarrow> Some (trim (snd l)))),
      (case cellAt cells 3 of
         None \<Rightarrow> None
       | Some c \<Rightarrow> parseInt (trim (textContent c))))"

definition sameBidRows :: "cell list list \<Rightarrow> int option \<Rightarrow> entry list" where
  "sameBidRows rows bidAmt =
     map (\<lambda>p. \<lparr>ewinner = the (fst p), ebid = snd p\<rparr>)
       (filter (\<lambda>p. truthyStr (fst p) \<and> snd p \<noteq> None \<and> snd p = bidAmt) (map rowEntry rows))"

text \<open>
  The winner of the row, the item text without its quantity suffix, the quantity and the
  bid amount, as extractTableContext reads them from the cells of the row.
\<close>

definition rowWinner :: "cell list \<Rightarrow> string" where
  "rowWinner cells =
     (case links (cells ! 1) of
        l # _ \<Rightarrow> trim (snd l)
      | [] \<Rightarrow> trim (textContent (cells ! 1)))"

definition rowItemText :: "cell list \<Rightarrow> string" where
  "rowItemText cells =
     (let itemText = trim (textContent (cells ! 2)) in
      case quantityMatch itemText of
        Some _ \<Rightarrow> trim (removeQuantity itemText)
      | None \<Rightarrow> itemText)"

definition rowQuantity :: "cell list \<Rightarrow> nat" where
  "rowQuantity cells =
     (case quantityMatch (trim (textContent (cells ! 2))) of
        Some ds \<Rightarrow> digitsVal ds
      | None \<Rightarrow> 1)"

definition rowBidAmount :: "cell list \<Rightarrow> int option" where
  "rowBidAmount cells =
     (let bidText = trim (textContent (cells ! 3)) in
      if bidText = [] then None else parseInt bidText)"

text \<open>The context for a row of at least four cells.\<close>

definition tableContext :: "cell list \<Rightarrow> cell list list option \<Rightarrow> auctionContext" where
  "tableContext cells allRows =
     (let win = rowWinner cells;
          q = rowQuantity cells;
          name1 = cleanBidPrefix (rowItemText cells);
          bidAmt = rowBidAmount cells;
          rws = (case allRows of
                   Some rows \<Rightarrow> if truthy bidAmt then sameBidRows rows bidAmt else []
                 | None \<Rightarrow> []);
          rob = (if length rws > 1 then bidAmt else None);
          nb = (\<not> truthy bidAmt);
          ro = computeIsRollOff rws rob (Some q);
          aw = computeActualWinners ro rws bidAmt (Some q) (Some win)
      in \<lparr>winner = Some win,
          bidAmount = bidAmt,
          itemName = stripWinnerPrefix (Some name1) (Some win),
          quantity = Some q,
          noBid = nb,
          isTableStructure = True,
          rollOffWinners = Some rws,
          rollOffBid = rob,
          isRollOff = ro,
          multipleWinners = (length aw > 1),
          actualWinners = (if length aw > 0 then Some aw else None)\<rparr>)"

definition extractTableContext :: "tableDom \<Rightarrow> auctionContext option" where
  "extractTableContext d =
     (case timerRow d of
        None \<Rightarrow> None
      | Some cells \<Rightarrow>
          if length cells < 4 then None else Some (tableContext cells (parentRows d)))"

section \<open>extractWinnersFromTable\<close>

text \<open>
  A row of a bids table: whether it holds a \<open>th\<close> element, and its \<open>td\<close> cells.  A table
  is the list of its rows in document order (nested tables are not modelled, and links are
  taken to sit inside \<open>td\<close> cells).
\<close>

record tableRow =
  hasTh :: bool
  tds :: "cell list"

type_synonym domTable = "tableRow list"

fun strIncludes :: "string \<Rightarrow> string \<Rightarrow> bool" where
  "strIncludes [] sub = (sub = [])"
| "strIncludes (c # cs) sub = (prefix sub (c # cs) \<or> strIncludes cs sub)"

text \<open>\<^verbatim>\<open>cell.querySelector('a[href*="/characters/"]')\<close>, as the text of the link.\<close>

definition characterLink :: "cell \<Rightarrow> string option" where
  "characterLink c = map_option snd (find (\<lambda>l. strIncludes (fst l) ''/characters/'') (links c))"

definition allDigits :: "string \<Rightarrow> bool" where
  "allDigits s \<longleftrightarrow> s \<noteq> [] \<and> (\<forall>c \<in> set s. isDigit c)"

text \<open>An input with a value that parses to a positive number.\<close>

definition bidInputOk :: "cell \<Rightarrow> bool" where
  "bidInputOk c \<longleftrightarrow>
     (case numberInput c of
        None \<Rightarrow> False
      | Some v \<Rightarrow> v \<noteq> [] \<and> (case parseInt v of None \<Rightarrow> False | Some b \<Rightarrow> b > 0))"

text \<open>A text of digits only, above 10.\<close>

definition bidTextOk :: "cell \<Rightarrow> bool" where
  "bidTextOk c \<longleftrightarrow>
     (let t = trim (textContent c) in
      allDigits t \<and> (case parseInt t of None \<Rightarrow> False | Some b \<Rightarrow> b > 10))"

text \<open>
  Strategy 1: the first cell with a character link of non-empty text is the name cell; the
  bid cell is the first of the next three cells with a valid input or a valid text.
\<close>

fun strategy1 :: "cell list \<Rightarrow> (cell \<times> cell option) option" where
  "strategy1 [] = None"
| "strategy1 (c # cs) =
     (case characterLink c of
        Some l \<Rightarrow>
          if trim l \<noteq> [] then Some (c, find (\<lambda>b. bidInputOk b \<or> bidTextOk b) (take 3 cs))
          else strategy1 cs
      | None \<Rightarrow> strategy1 cs)"

definition isAlpha :: "char \<Rightarrow> bool" where
  "isAlpha c \<longleftrightarrow> c \<in> set ''abcdefghijklmnopqrstuvwxyzABCDEFGHIJKLMNOPQRSTUVWXYZ''"

text \<open>\<^verbatim>\<open>/^[a-zA-Z][a-zA-Z0-9\s-]+$/\<close>\<close>

definition looksLikeName :: "string \<Rightarrow> bool" where
  "looksLikeName t \<longleftrightarrow>
     (case t of
        [] \<Rightarrow> False
      | c # r \<Rightarrow> isAlpha c \<and> r \<noteq> [] \<and>
                 (\<forall>d \<in> set r. isAlpha d \<or> isDigit d \<or> isSpace d \<or> d = CHR ''-''))"

text \<open>
  Strategy 2, one cell: the first cell that looks like a name is the name cell, the last
  cell with a valid input (or, without a filled input, a valid text) is the bid cell.
\<close>

definition strategy2Step :: "cell option \<times> cell option \<Rightarrow> cell \<Rightarrow> cell option \<times> cell option" where
  "strategy2Step st c =
     (let cellText = trim (textContent c);
          nameCell =
            (if cellText \<noteq> [] \<and> looksLikeName cellText \<and> length cellText > 1 \<and>
                toLowerCase cellText \<notin> set [''name'', ''winner'', ''#'', ''rank'', ''raid main'', ''raid main''] \<and>
                fst st = None
             then Some c else fst st);
          hasValue = (case numberInput c of None \<Rightarrow> False | Some v \<Rightarrow> v \<noteq> []);
          bidCell =
            (if hasValue then (if bidInputOk c then Some c else snd st)
             else (if bidTextOk c then Some c else snd st))
      in (nameCell, bidCell))"

definition findNameAndBidCell :: "cell list \<Rightarrow> cell option \<times> cell option" where
  "findNameAndBidCell cells =
     (case strategy1 cells of
        Some (n, b) \<Rightarrow> (Some n, b)
      | None \<Rightarrow> foldl strategy2Step (None, None) cells)"

text \<open>\<^verbatim>\<open>name.replace(/\s*\(.*?$/, '')\<close>: the text before the leftmost match.\<close>

definition parenTail :: "string \<Rightarrow> unit option" where
  "parenTail s =
     (case dropWhile isSpace s of
        [] \<Rightarrow> None
      | c # r \<Rightarrow> if c = CHR ''('' \<and> (\<forall>d \<in> set r. \<not> isLineTerminator d) then Some () else None)"

definition removeParen :: "string \<Rightarrow> string" where
  "removeParen name =
     (case searchFrom parenTail [] name of
        Some (pre, _) \<Rightarrow> pre
      | None \<Rightarrow> name)"

definition rowName :: "cell \<Rightarrow> string" where
  "rowName nameCell =
     trim (removeParen
       (case links nameCell of
          l # _ \<Rightarrow> trim (snd l)
        | [] \<Rightarrow> trim (textContent nameCell)))"

definition cellBid :: "cell option \<Rightarrow> int option" where
  "cellBid bidCell =
     (case bidCell of
        None \<Rightarrow> None
      | Some c \<Rightarrow>
          (let textBid = (let t = trim (textContent c) in if allDigits t then parseInt t else None) in
           case numberInput c of
             None \<Rightarrow> textBid
           | Some v \<Rightarrow> if v \<noteq> [] then parseInt v else textBid))"

text \<open>
  What one row contributes: its name and its bid after the default has been applied
  (\<^verbatim>\<open>if (!rowBid && defaultBid) rowBid = defaultBid\<close>); \<open>None\<close> for a row that is skipped.
\<close>

definition scanRow :: "int option \<Rightarrow> tableRow \<Rightarrow> (string \<times> int option) option" where
  "scanRow defaultBid row =
     (if hasTh row then None
      else if length (tds row) \<ge> 2 then
        (case findNameAndBidCell (tds row) of
           (None, _) \<Rightarrow> None
         | (Some nameCell, bidCell) \<Rightarrow>
             (let name = rowName nameCell in
              if name \<noteq> [] \<and> \<not> allDigits name \<and> length name > 1 then
                (let b = cellBid bidCell;
                     rowBid = (if \<not> truthy b \<and> truthy defaultBid then defaultBid else b)
                 in Some (name, rowBid))
              else None))
      else None)"

text \<open>
  The Map from names to entries keeps the order of first insertion, as the association
  list does under \<open>AList.update\<close>.
\<close>

definition recordBid :: "(string \<times> entry) list \<Rightarrow> string \<times> int option \<Rightarrow> (string \<times> entry) list" where
  "recordBid winnersMap nb =
     (let name = fst nb; rowBid = snd nb; existing = map_of winnersMap name in
      if existing = None \<or> \<not> truthy rowBid \<or>
         (truthy rowBid \<and> (\<not> truthy (ebid (the existing)) \<or> the rowBid > the (ebid (the existing))))
      then AList.update name \<lparr>ewinner = name, ebid = rowBid\<rparr> winnersMap
      else winnersMap)"

definition scanRows :: "int option \<Rightarrow> domTable \<Rightarrow> (string \<times> entry) list" where
  "scanRows defaultBid table =
     foldl (\<lambda>m row. case scanRow defaultBid row of None \<Rightarrow> m | Some nb \<Rightarrow> recordBid m nb) [] table"

definition extractWinnersFromTable :: "domTable \<Rightarrow> int option \<Rightarrow> entry list" where
  "extractWinnersFromTable table defaultBid = map snd (scanRows defaultBid table)"


section \<open>extractTimerContext\<close>

text \<open>
  The outcome of \<open>document.querySelector\<close> for a selector that the source builds from the
  id of the container: the selector is not valid CSS and the call throws (an id with a
  quotation mark, say), or the call returns an element or null.
\<close>

datatype 'a lookup = InvalidSelector | Matched "'a option"

text \<open>
  What extractTimerContext reads of the document: whether an auction container exists,
  its id, the text of its \<open>.tab-offset\<close> element (\<open>None\<close> without one), the texts of
  the \<open>div\<close> elements below it, the tab panel that the selector with the id attribute
  finds, the tab panel that the selector with the aria-labelledby attribute finds, and the
  active tab panel.  A panel is the list of its tables in document order.
\<close>

record tabDom =
  hasContainer :: bool
  containerId :: string
  tabOffsetText :: "string option"
  divTexts :: "string list"
  panelByTabId :: "domTable list lookup"
  panelByLabel :: "domTable list lookup"
  activePanel :: "domTable list option"

text \<open>
  The tail \<^verbatim>\<open>\s*-\s*(\d+)$\<close> or \<^verbatim>\<open>\s*x\s*(\d+)$\<close> of the two lazy patterns, and the
  lazy group \<^verbatim>\<open>^(.+?)\<close> in front of it: the shortest non-empty prefix without a line
  terminator after which the tail matches.
\<close>

definition numberTail :: "char \<Rightarrow> string \<Rightarrow> string option" where
  "numberTail sep s =
     (case dropWhile isSpace s of
        [] \<Rightarrow> None
      | c # r \<Rightarrow>
          if c = sep then (let ds = dropWhile isSpace r in if allDigits ds then Some ds else None)
          else None)"

fun lazyPrefix :: "(string \<Rightarrow> 'a option) \<Rightarrow> string \<Rightarrow> string \<Rightarrow> (string \<times> 'a) option" where
  "lazyPrefix m pre [] = None"
| "lazyPrefix m pre (c # cs) =
     (if isLineTerminator c then None
      else (case m cs of
              Some r \<Rightarrow> Some (pre @ [c], r)
            | None \<Rightarrow> lazyPrefix m (pre @ [c]) cs))"

text \<open>\<^verbatim>\<open>text.match(/^(.+?)\s*-\s*(\d+)$/)\<close> with the trimmed name and the parsed bid.\<close>

definition parseWinnerBid :: "string \<Rightarrow> (string \<times> int option) option" where
  "parseWinnerBid t =
     map_option (\<lambda>g. (trim (fst g), parseInt (snd g))) (lazyPrefix (numberTail CHR ''-'') [] t)"

text \<open>
  The loop over the \<open>div\<close> elements: the first text of the form \<open>name x N\<close> ends the loop;
  before it, every text without dash and without x and longer than 3 sets the fallback.
\<close>

fun scanItemDivs :: "string list \<Rightarrow> string option \<times> nat option \<Rightarrow> string option \<times> nat option" where
  "scanItemDivs [] st = st"
| "scanItemDivs (d # ds) st =
     (let text = trim d in
      case lazyPrefix (numberTail CHR ''x'') [] text of
        Some g \<Rightarrow> (Some (cleanBidPrefix (trim (fst g))), Some (digitsVal (snd g)))
      | None \<Rightarrow>
          if text \<noteq> [] \<and> CHR ''-'' \<notin> set text \<and> CHR ''x'' \<notin> set text \<and> length text > 3
          then scanItemDivs ds (Some (cleanBidPrefix text), Some 1)
          else scanItemDivs ds st)"

fun splitComma :: "string \<Rightarrow> string \<Rightarrow> string list" where
  "splitComma cur [] = [cur]"
| "splitComma cur (c # cs) =
     (if c = CHR '','' then cur # splitComma [] cs else splitComma (cur @ [c]) cs)"

definition parsePart :: "int option \<Rightarrow> string \<Rightarrow> entry option" where
  "parsePart bidAmt part =
     (case parseWinnerBid part of
        Some wb \<Rightarrow> Some \<lparr>ewinner = fst wb, ebid = snd wb\<rparr>
      | None \<Rightarrow>
          if truthy bidAmt \<and> length (trim part) > 0 then Some \<lparr>ewinner = trim part, ebid = bidAmt\<rparr>
          else None)"

text \<open>
  \<^verbatim>\<open>ws.every(w => w.bid === ws[0].bid && w.bid !== null) && ws[0].bid > 0\<close> for a list of
  more than one entry (in the first strategy the test for null is absent, and every
  bid is a number).
\<close>

definition allSameBid :: "entry list \<Rightarrow> bool" where
  "allSameBid ws \<longleftrightarrow> (\<forall>w \<in> set ws. ebid w \<noteq> None \<and> ebid w = ebid (hd ws))"

definition positiveBid :: "int option \<Rightarrow> bool" where
  "positiveBid b \<longleftrightarrow> (case b of None \<Rightarrow> False | Some v \<Rightarrow> v > 0)"

text \<open>The variables that the four strategies assign.\<close>

record scanState =
  stWinners :: "entry list"
  stRollOffBid :: "int option"
  stWinner :: "string option"
  stBidAmount :: "int option"

text \<open>Strategy 1: a comma-separated list of winners in the tab-offset text.\<close>

definition strategyTabOffset :: "string \<Rightarrow> scanState \<Rightarrow> scanState" where
  "strategyTabOffset winnerText st =
     (if winnerText \<noteq> [] \<and> CHR '','' \<in> set winnerText then
        (let parsed = List.map_filter (parsePart (stBidAmount st)) (map trim (splitComma [] winnerText)) in
         if length parsed > 1 then
           (if allSameBid parsed \<and> positiveBid (ebid (hd parsed))
            then st\<lparr>stWinners := parsed, stRollOffBid := ebid (hd parsed)\<rparr>
            else st\<lparr>stWinners := parsed\<rparr>)
         else st)
      else st)"

text \<open>A single winner in the table confirms or supplies the winner and the bid.\<close>

definition adoptTableWinner :: "entry \<Rightarrow> scanState \<Rightarrow> scanState" where
  "adoptTableWinner tw st =
     (if truthyStr (stWinner st) \<and> ewinner tw \<noteq> [] \<and>
         toLowerCase (the (stWinner st)) = toLowerCase (ewinner tw) then
        (if truthy (ebid tw) \<and> positiveBid (ebid tw) then st\<lparr>stBidAmount := ebid tw\<rparr> else st)
      else if ewinner tw \<noteq> [] \<and> \<not> truthyStr (stWinner st) then
        (if truthy (ebid tw) \<and> positiveBid (ebid tw)
         then st\<lparr>stWinner := Some (ewinner tw), stBidAmount := ebid tw\<rparr>
         else st\<lparr>stWinner := Some (ewinner tw)\<rparr>)
      else st)"

fun firstSome :: "('a \<Rightarrow> 'b option) \<Rightarrow> 'a list \<Rightarrow> 'b option" where
  "firstSome f [] = None"
| "firstSome f (x # xs) = (case f x of Some y \<Rightarrow> Some y | None \<Rightarrow> firstSome f xs)"

text \<open>\<^verbatim>\<open>row.querySelector\<close> for a character link and for a number input.\<close>

definition rowCharacterLink :: "tableRow \<Rightarrow> string option" where
  "rowCharacterLink row = firstSome characterLink (tds row)"

definition rowNumberInput :: "tableRow \<Rightarrow> string option" where
  "rowNumberInput row = firstSome numberInput (tds row)"

text \<open>The row of the known winner, searched when the table scan found nobody.\<close>

fun findWinnerRow :: "string \<Rightarrow> tableRow list \<Rightarrow> int option" where
  "findWinnerRow win [] = None"
| "findWinnerRow win (row # rows) =
     (if hasTh row then findWinnerRow win rows
      else (case rowCharacterLink row of
              None \<Rightarrow> findWinnerRow win rows
            | Some l \<Rightarrow>
                if toLowerCase (trim l) = toLowerCase win then
                  (case rowNumberInput row of
                     None \<Rightarrow> findWinnerRow win rows
                   | Some v \<Rightarrow>
                       if v \<noteq> [] \<and> positiveBid (parseInt v) then parseInt v
                       else findWinnerRow win rows)
                else findWinnerRow win rows))"

text \<open>Strategy 2: the first table of the tab panel.\<close>

definition strategyBidsTable :: "domTable \<Rightarrow> scanState \<Rightarrow> scanState" where
  "strategyBidsTable bidsTable st =
     (let extracted = extractWinnersFromTable bidsTable (stBidAmount st) in
      if length extracted > 1 then
        (if allSameBid extracted \<and> positiveBid (ebid (hd extracted))
         then st\<lparr>stWinners := extracted, stRollOffBid := ebid (hd extracted)\<rparr>
         else st\<lparr>stWinners := extracted\<rparr>)
      else if length extracted = 1 then
        (adoptTableWinner (hd extracted) st)\<lparr>stWinners := extracted\<rparr>
      else if truthyStr (stWinner st) then
        (case findWinnerRow (the (stWinner st)) bidsTable of
           Some tableBid \<Rightarrow>
             st\<lparr>stBidAmount := Some tableBid,
                stWinners := [\<lparr>ewinner = the (stWinner st), ebid = Some tableBid\<rparr>]\<rparr>
         | None \<Rightarrow> st)
      else st)"

definition tableHasCharacterLinks :: "domTable \<Rightarrow> bool" where
  "tableHasCharacterLinks table \<longleftrightarrow> (\<exists>row \<in> set table. rowCharacterLink row \<noteq> None)"

text \<open>
  Strategy 3: every table of the panel that holds character links, until one shows a
  roll-off.  (The last branch of the source, for a non-empty scan of length neither above
  nor equal to 1, cannot be reached.)
\<close>

fun strategyPanelTables :: "domTable list \<Rightarrow> scanState \<Rightarrow> scanState" where
  "strategyPanelTables [] st = st"
| "strategyPanelTables (table # tables) st =
     (if tableHasCharacterLinks table then
        (let extracted = extractWinnersFromTable table (stBidAmount st) in
         if length extracted > 1 then
           (if allSameBid extracted \<and> positiveBid (ebid (hd extracted))
            then st\<lparr>stWinners := extracted, stRollOffBid := ebid (hd extracted)\<rparr>
            else strategyPanelTables tables
                   (if length (stWinners st) = 0 then st\<lparr>stWinners := extracted\<rparr> else st))
         else if length extracted = 1 then
           strategyPanelTables tables ((adoptTableWinner (hd extracted) st)\<lparr>stWinners := extracted\<rparr>)
         else strategyPanelTables tables st)
      else strategyPanelTables tables st)"

text \<open>Strategy 4: the rows with a cell that reads 1000 and with a character link.\<close>

definition capRow :: "tableRow \<Rightarrow> entry option" where
  "capRow row =
     (if hasTh row then None
      else if length (tds row) \<ge> 2 \<and>
              (\<exists>c \<in> set (tds row). allDigits (trim (textContent c)) \<and>
                                     parseInt (trim (textContent c)) = Some 1000) then
        (case rowCharacterLink row of
           None \<Rightarrow> None
         | Some l \<Rightarrow> if trim l \<noteq> [] then Some \<lparr>ewinner = trim l, ebid = Some 1000\<rparr> else None)
      else None)"

fun strategyCap :: "domTable list \<Rightarrow> entry list option" where
  "strategyCap [] = None"
| "strategyCap (table # tables) =
     (let capBidders = List.map_filter capRow table in
      if length capBidders > 1 then Some capBidders else strategyCap tables)"

text \<open>
  The two selectors built from the id, joined by \<open>||\<close>: the second is evaluated only when
  the first finds nothing.  \<open>None\<close> stands for the exception of an invalid selector.
\<close>

definition panelOfContainer :: "tabDom \<Rightarrow> domTable list option option" where
  "panelOfContainer d =
     (case panelByTabId d of
        InvalidSelector \<Rightarrow> None
      | Matched r \<Rightarrow>
          (case r of
             Some pn \<Rightarrow> Some (Some pn)
           | None \<Rightarrow> (case panelByLabel d of InvalidSelector \<Rightarrow> None | Matched r2 \<Rightarrow> Some r2)))"

text \<open>Strategies 2 and 3 on the tab panel that was found.\<close>

definition strategiesOnPanel :: "domTable list option \<Rightarrow> scanState \<Rightarrow> scanState" where
  "strategiesOnPanel tabPanel st1 =
     (let st2 = (case tabPanel of
                   Some (bidsTable # _) \<Rightarrow> strategyBidsTable bidsTable st1
                 | _ \<Rightarrow> st1)
      in (case tabPanel of
            Some tables \<Rightarrow>
              if length (stWinners st2) \<le> 1 then strategyPanelTables tables st2 else st2
          | None \<Rightarrow> st2))"

text \<open>
  The block of strategies 2 and 3 with its guard and its search for the tab panel; \<open>None\<close>
  when a selector throws.
\<close>

definition strategiesTabPanel :: "tabDom \<Rightarrow> scanState \<Rightarrow> scanState option" where
  "strategiesTabPanel d st1 =
     (if truthy (stBidAmount st1) \<and> positiveBid (stBidAmount st1) then
        (if containerId d \<noteq> [] then
           (case panelOfContainer d of
              None \<Rightarrow> None
            | Some r \<Rightarrow>
                Some (strategiesOnPanel (case r of Some pn \<Rightarrow> Some pn | None \<Rightarrow> activePanel d) st1))
         else Some (strategiesOnPanel (activePanel d) st1))
      else Some st1)"

text \<open>The block of strategy 4; \<open>None\<close> when a selector throws.\<close>

definition strategyCapPanel :: "tabDom \<Rightarrow> scanState \<Rightarrow> scanState option" where
  "strategyCapPanel d st3 =
     (if length (stWinners st3) \<le> 1 \<and> stBidAmount st3 = Some 1000 then
        (if containerId d \<noteq> [] then
           (case panelOfContainer d of
              None \<Rightarrow> None
            | Some r \<Rightarrow>
                (case r of
                   Some tables \<Rightarrow>
                     (case strategyCap tables of
                        Some capBidders \<Rightarrow> Some (st3\<lparr>stWinners := capBidders, stRollOffBid := Some 1000\<rparr>)
                      | None \<Rightarrow> Some st3)
                 | None \<Rightarrow> Some st3))
         else Some st3)
      else Some st3)"

text \<open>
  The part of extractTimerContext that parses the winner text and runs the four strategies;
  it leaves rollOffWinners, rollOffBid, winner and bidAmount, or throws.
\<close>

definition scanTab :: "tabDom \<Rightarrow> scanState option" where
  "scanTab d =
     (let winnerText = (case tabOffsetText d of Some t \<Rightarrow> trim t | None \<Rightarrow> []);
          wb = (if winnerText \<noteq> [] then parseWinnerBid winnerText else None);
          st0 = \<lparr>stWinners = [], stRollOffBid = None,
                 stWinner = map_option fst wb,
                 stBidAmount = (case wb of Some p \<Rightarrow> snd p | None \<Rightarrow> None)\<rparr>;
          st1 = strategyTabOffset winnerText st0
      in case strategiesTabPanel d st1 of
           None \<Rightarrow> None
         | Some st3 \<Rightarrow> strategyCapPanel d st3)"

text \<open>
  The context for a timer with an auction container, from the variables that the
  strategies have left.
\<close>

definition timerContext :: "tabDom \<Rightarrow> scanState \<Rightarrow> auctionContext" where
  "timerContext d st =
     (let item = scanItemDivs (divTexts d) (None, None);
          q = snd item;
          rws = stWinners st;
          rob = stRollOffBid st;
          win = stWinner st;
          bidAmt = stBidAmount st;
          nb = (\<not> truthy bidAmt);
          ro = computeIsRollOff rws rob q;
          aw = computeActualWinners ro rws bidAmt q win
      in \<lparr>winner = win,
          bidAmount = bidAmt,
          itemName = stripWinnerPrefix (fst item) win,
          quantity = q,
          noBid = nb,
          isTableStructure = False,
          rollOffWinners = (if length rws > 0 then Some rws else None),
          rollOffBid = rob,
          isRollOff = ro,
          multipleWinners = (length aw > 1),
          actualWinners = (if length aw > 0 then Some aw else None)\<rparr>)"

text \<open>
  extractTimerContext returns null without a container, and its \<open>catch\<close> block returns null
  when a selector throws.
\<close>

definition extractTimerContext :: "tabDom \<Rightarrow> auctionContext option" where
  "extractTimerContext d =
     (if \<not> hasContainer d then None
      else (case scanTab d of
              None \<Rightarrow> None
            | Some st \<Rightarrow> Some (timerContext d st)))"

section \<open>Alert policy and output dispatch\<close>

text \<open>The settings that the policy and the dispatch read.\<close>

record settings =
  SMART_BIDDING :: bool
  SOUND_PROFILE :: string
  QUIET_HOURS :: bool
  QUIET_START :: string
  QUIET_END :: string
  DISABLE_VISUALS :: bool
  FLASH_SCREEN :: bool
  BROWSER_NOTIFICATIONS :: bool

datatype permission = Granted | Default | Denied

text \<open>
  What the policy and the dispatch read of the browser besides the timers: the local
  time, \<open>Date.now()\<close>, the texts of the character links of the top bar, whether the page
  holds bid inputs or bid buttons, the session-storage item of the last bid activity, the
  notification permission, and whether the conditions of the new-auction announcement
  (settings loaded, TTS and the feature enabled, no quiet hours, inside the announce
  window) hold.
\<close>

record browser =
  hours :: nat
  minutes :: nat
  nowMs :: int
  topbarLinkTexts :: "string list"
  bidElementsPresent :: bool
  bidActivity :: "string option"
  notificationPermission :: permission
  announceConditions :: bool

text \<open>\<^verbatim>\<open>s.replace(':', '')\<close> removes the first colon.\<close>

definition removeColon :: "string \<Rightarrow> string" where
  "removeColon s = takeWhile (\<lambda>c. c \<noteq> CHR '':'') s @ drop 1 (dropWhile (\<lambda>c. c \<noteq> CHR '':'') s)"

definition isQuietHours :: "settings \<Rightarrow> browser \<Rightarrow> bool" where
  "isQuietHours st b =
     (if \<not> QUIET_HOURS st then False
      else
        (let currentTime = int (hours b * 100 + minutes b) in
         case (parseInt (removeColon (QUIET_START st)), parseInt (removeColon (QUIET_END st))) of
           (Some startTime, Some endTime) \<Rightarrow>
             if startTime > endTime then currentTime \<ge> startTime \<or> currentTime \<le> endTime
             else currentTime \<ge> startTime \<and> currentTime \<le> endTime
         | _ \<Rightarrow> False))"

text \<open>\<^verbatim>\<open>text.match(/^([^[]+)\s*\[/)\<close>: the text before the first bracket, if not empty.\<close>

definition characterNameOf :: "string \<Rightarrow> string option" where
  "characterNameOf text =
     (let n = takeWhile (\<lambda>c. c \<noteq> CHR ''['') text; r = dropWhile (\<lambda>c. c \<noteq> CHR ''['') text in
      if n \<noteq> [] \<and> r \<noteq> [] then Some (trim n) else None)"

definition extractUserCharacterNames :: "browser \<Rightarrow> string list" where
  "extractUserCharacterNames b = List.map_filter (\<lambda>t. characterNameOf (trim t)) (topbarLinkTexts b)"

definition isUserCharacter :: "string list \<Rightarrow> string \<Rightarrow> bool" where
  "isUserCharacter names winnerName \<longleftrightarrow>
     winnerName \<noteq> [] \<and> names \<noteq> [] \<and>
     (\<exists>characterName \<in> set names. toLowerCase characterName = toLowerCase winnerName)"

text \<open>
  isUserBidding returns its answer and the value of userCharacterNames that it leaves.
\<close>

definition isUserBidding :: "browser \<Rightarrow> string list \<Rightarrow> auctionContext \<Rightarrow> bool \<times> string list" where
  "isUserBidding b names ctx =
     (let names1 = (if names = [] then extractUserCharacterNames b else names) in
      if names1 = [] then
        (if bidElementsPresent b then (True, names1)
         else (case bidActivity b of
                 Some a \<Rightarrow>
                   if a \<noteq> [] then
                     (case parseInt a of
                        Some activityTime \<Rightarrow> (nowMs b - activityTime < 5 * 60 * 1000, names1)
                      | None \<Rightarrow> (False, names1))
                   else (False, names1)
               | None \<Rightarrow> (False, names1)))
      else if truthyStr (winner ctx) then (isUserCharacter names1 (the (winner ctx)), names1)
      else (case rollOffWinners ctx of
              Some rws \<Rightarrow>
                if length rws > 0 then ((\<exists>p \<in> set rws. isUserCharacter names1 (ewinner p)), names1)
                else (False, names1)
            | None \<Rightarrow> (False, names1)))"

text \<open>shouldAlert, called with a context that is not null.\<close>

definition shouldAlert ::
  "settings \<Rightarrow> browser \<Rightarrow> string list \<Rightarrow> auctionContext \<Rightarrow> bool \<times> string list" where
  "shouldAlert st b names ctx =
     (if noBid ctx then (False, names)
      else
        (let ub = (if SMART_BIDDING st \<and> SOUND_PROFILE st = ''raider''
                   then isUserBidding b names ctx else (True, names));
             names1 = snd ub in
         if \<not> fst ub then (False, names1)
         else if isQuietHours st b then (\<not> DISABLE_VISUALS st, names1)
         else if truthyStr (winner ctx) \<and> rollOffWinners ctx = None then (True, names1)
         else if quantity ctx \<noteq> None \<and> the (quantity ctx) > 1 \<and> rollOffWinners ctx \<noteq> None \<and>
                 length (the (rollOffWinners ctx)) \<ge> the (quantity ctx) then (True, names1)
         else if isRollOff ctx \<and> rollOffWinners ctx \<noteq> None \<and>
                 length (the (rollOffWinners ctx)) > quantityOr1 (quantity ctx) then (True, names1)
         else if truthy (bidAmount ctx) \<and> positiveBid (bidAmount ctx) then (True, names1)
         else (False, names1)))"

text \<open>
  The effects that showNotification starts, in the order of the source: the browser
  notification (or the request for its permission), the console line, the screen flash,
  the sound of playChime, and the timeout that calls speakNotification.
\<close>

datatype effect =
    BrowserNotification
  | PermissionRequest
  | ConsoleNotification
  | FlashScreen
  | ChimeSound
  | SpeakNotification

text \<open>playChime starts a sound (a named sound or the fallback beep) outside quiet hours.\<close>

definition playChime :: "settings \<Rightarrow> browser \<Rightarrow> effect list" where
  "playChime st b = (if isQuietHours st b then [] else [ChimeSound])"

text \<open>showNotification returns the context with the cleaned item name and the effects.\<close>

definition showNotification :: "settings \<Rightarrow> browser \<Rightarrow> auctionContext \<Rightarrow> auctionContext \<times> effect list" where
  "showNotification st b ctx =
     (let ctx1 = (if truthyStr (itemName ctx)
                  then ctx\<lparr>itemName := Some (notificationItemName (the (itemName ctx)))\<rparr> else ctx);
          notification =
            (if BROWSER_NOTIFICATIONS st \<and> \<not> DISABLE_VISUALS st then
               (case notificationPermission b of
                  Granted \<Rightarrow> [BrowserNotification]
                | Default \<Rightarrow> [PermissionRequest]
                | Denied \<Rightarrow> [])
             else []);
          console = (if \<not> DISABLE_VISUALS st then [ConsoleNotification] else []);
          flash = (if FLASH_SCREEN st \<and> \<not> DISABLE_VISUALS st then [FlashScreen] else [])
      in if isQuietHours st b then (ctx1, notification @ console @ flash)
         else (ctx1, notification @ console @ flash @ playChime st b @ [SpeakNotification]))"


section \<open>Completion signatures\<close>

function showNat :: "nat \<Rightarrow> string" where
  "showNat n = (if n < 10 then [char_of (48 + n)] else showNat (n div 10) @ [char_of (48 + n mod 10)])"
  by pat_completeness auto
termination
  by (relation "measure id") auto

declare showNat.simps [simp del]

definition showInt :: "int \<Rightarrow> string" where
  "showInt i = (if i < 0 then CHR ''-'' # showNat (nat (- i)) else showNat (nat i))"

text \<open>buildCompletionSignature accepts a null context.\<close>

definition buildCompletionSignature :: "auctionContext option \<Rightarrow> string" where
  "buildCompletionSignature ctx =
     (let item = trim (toLowerCase (case ctx of
                                      Some c \<Rightarrow> (case itemName c of Some i \<Rightarrow> i | None \<Rightarrow> [])
                                    | None \<Rightarrow> []));
          win = trim (toLowerCase (case ctx of
                                     Some c \<Rightarrow> (case winner c of Some w \<Rightarrow> w | None \<Rightarrow> [])
                                   | None \<Rightarrow> []));
          bid = (case ctx of
                   Some c \<Rightarrow> (case bidAmount c of Some v \<Rightarrow> v | None \<Rightarrow> 0)
                 | None \<Rightarrow> 0)
      in item @ ''|'' @ win @ ''|'' @ showInt bid)"

definition COMPLETED_SUPPRESS_MS :: int where
  "COMPLETED_SUPPRESS_MS = 2 * 60 * 1000"

text \<open>recentCompletedMap: signatures with their time stamps, in the order of insertion.\<close>

definition isRecentlyCompleted :: "(string \<times> int) list \<Rightarrow> int \<Rightarrow> string \<Rightarrow> bool" where
  "isRecentlyCompleted m now signature =
     (case map_of m signature of
        None \<Rightarrow> False
      | Some ts \<Rightarrow> if ts = 0 then False else now - ts < COMPLETED_SUPPRESS_MS)"

definition recordCompleted :: "(string \<times> int) list \<Rightarrow> int \<Rightarrow> string \<Rightarrow> (string \<times> int) list" where
  "recordCompleted m now signature =
     (let m1 = AList.update signature now m in
      if length m1 > 200 then filter (\<lambda>e. \<not> (now - snd e > COMPLETED_SUPPRESS_MS)) m1 else m1)"

section \<open>The timer monitor\<close>

text \<open>
  The document and the browser as one callback sees them.  A handle \<open>'h\<close> is a timer
  element; \<open>timers\<close> is what \<open>querySelectorAll\<close> finds for the timer selector, \<open>styleWidth\<close> the inline width of
  an element, \<open>attached\<close> is \<open>document.contains\<close>, and \<open>tableDomOf\<close> and \<open>tabDomOf\<close>
  give what the two extractors read around an element.
\<close>

record 'h world =
  timers :: "'h list"
  styleWidth :: "'h \<Rightarrow> string option"
  attached :: "'h \<Rightarrow> bool"
  tableDomOf :: "'h \<Rightarrow> tableDom"
  tabDomOf :: "'h \<Rightarrow> tabDom"
  config :: settings
  env :: browser

text \<open>
  scanForTimers: the set of the elements that the selector finds, in the order of their
  first occurrence.
\<close>

definition scanForTimers :: "'h world \<Rightarrow> 'h list" where
  "scanForTimers w = rev (remdups (rev (timers w)))"

text \<open>
  What the monitor does that can be observed, in the order in which it happens: an element
  is added to alertedTimers, showNotification is called for an element (with the effects
  it starts), a signature is recorded, a completion is suppressed as a duplicate, a new
  auction is announced.
\<close>

datatype 'h event =
    MarkAlerted 'h
  | Notification 'h auctionContext "effect list"
  | SignatureRecorded string
  | DuplicateSuppressed 'h string
  | NewAuctionAnnounced 'h

text \<open>The module-level variables of the content script, and the trace of events.\<close>

record 'h state =
  initializationComplete :: bool
  navigationProtectionActive :: bool
  alertedTimers :: "'h set"
  timersWithProgress :: "'h set"
  announcedNewAuctions :: "'h set"
  allTimers :: "'h list"
  recentCompletedMap :: "(string \<times> int) list"
  userCharacterNames :: "string list"
  trace :: "'h event list"

definition initialState :: "'h state" where
  "initialState =
     \<lparr>initializationComplete = False, navigationProtectionActive = False,
      alertedTimers = {}, timersWithProgress = {}, announcedNewAuctions = {},
      allTimers = [], recentCompletedMap = [], userCharacterNames = [], trace = []\<rparr>"

text \<open>\<^verbatim>\<open>alertedTimers.add(timerElement)\<close>\<close>

definition markAlerted :: "'h \<Rightarrow> 'h state \<Rightarrow> 'h state" where
  "markAlerted h s = s\<lparr>alertedTimers := insert h (alertedTimers s), trace := trace s @ [MarkAlerted h]\<rparr>"

text \<open>\<^verbatim>\<open>recordCompleted(sig)\<close> on the state.\<close>

definition recordSignature :: "'h world \<Rightarrow> string \<Rightarrow> 'h state \<Rightarrow> 'h state" where
  "recordSignature w signature s =
     s\<lparr>recentCompletedMap := recordCompleted (recentCompletedMap s) (nowMs (env w)) signature,
       trace := trace s @ [SignatureRecorded signature]\<rparr>"

text \<open>\<^verbatim>\<open>extractTableContext(timer) || extractTimerContext(timer)\<close>\<close>

definition extractContext :: "'h world \<Rightarrow> 'h \<Rightarrow> auctionContext option" where
  "extractContext w h =
     (case extractTableContext (tableDomOf w h) of
        Some c \<Rightarrow> Some c
      | None \<Rightarrow> extractTimerContext (tabDomOf w h))"

text \<open>checkTimer returns whether an alert decision was taken, and the new state.\<close>

definition checkTimer :: "'h world \<Rightarrow> 'h \<Rightarrow> 'h state \<Rightarrow> bool \<times> 'h state" where
  "checkTimer w h s =
     (if \<not> initializationComplete s then (False, s)
      else if navigationProtectionActive s then (False, s)
      else if h \<in> alertedTimers s then (False, s)
      else
        (let width = getWidthPercent (styleWidth w h);
             s1 = (if width \<noteq> None \<and> numGreater (the width) 1
                   then s\<lparr>timersWithProgress := insert h (timersWithProgress s)\<rparr> else s)
         in if widthCompleted width then
              (let hasSeenProgress = (h \<in> timersWithProgress s1);
                   firstCheck = (\<not> hasSeenProgress \<and> h \<notin> alertedTimers s1)
               in if \<not> hasSeenProgress \<and> \<not> firstCheck then (False, markAlerted h s1)
                  else
                    (case extractContext w h of
                       None \<Rightarrow> (False, markAlerted h s1)
                     | Some ctx \<Rightarrow>
                         if \<not> truthyStr (itemName ctx) then (False, markAlerted h s1)
                         else
                           (let sig = buildCompletionSignature (Some ctx);
                                wasRecentlyCompleted =
                                  isRecentlyCompleted (recentCompletedMap s1) (nowMs (env w)) sig;
                                hasBeenAlertedForThisTimer = (h \<in> alertedTimers s1)
                            in if wasRecentlyCompleted \<and> hasBeenAlertedForThisTimer
                               then (False, s1\<lparr>trace := trace s1 @ [DuplicateSuppressed h sig]\<rparr>)
                               else
                                 (let s2 = markAlerted h s1;
                                      decision = shouldAlert (config w) (env w) (userCharacterNames s2) ctx;
                                      s3 = s2\<lparr>userCharacterNames := snd decision\<rparr>
                                  in if fst decision then
                                       (let shown = showNotification (config w) (env w) ctx;
                                            s4 = s3\<lparr>trace := trace s3 @ [Notification h (fst shown) (snd shown)]\<rparr>
                                        in (True, recordSignature w sig s4))
                                     else (True, s3)))))
            else (False, s1)))"

text \<open>
  maybeAnnounceNewAuction: an element is announced at most once, and not below a width of
  50 percent.
\<close>

definition maybeAnnounceNewAuction :: "'h world \<Rightarrow> 'h \<Rightarrow> 'h state \<Rightarrow> 'h state" where
  "maybeAnnounceNewAuction w h s =
     (if h \<in> announcedNewAuctions s then s
      else
        (let s1 = s\<lparr>announcedNewAuctions := insert h (announcedNewAuctions s)\<rparr>;
             initialWidth = getWidthPercent (styleWidth w h)
         in if initialWidth \<noteq> None \<and> numLess (the initialWidth) 50 then s1
            else if announceConditions (env w) then s1\<lparr>trace := trace s1 @ [NewAuctionAnnounced h]\<rparr>
            else s1))"

text \<open>The first loop of checkAllTimers, over the scanned timers.\<close>

definition trackTimer :: "'h world \<Rightarrow> 'h state \<Rightarrow> 'h \<Rightarrow> 'h state" where
  "trackTimer w s timer =
     (if timer \<in> set (allTimers s) then s
      else
        (let s1 = maybeAnnounceNewAuction w timer (s\<lparr>allTimers := allTimers s @ [timer]\<rparr>);
             width = getWidthPercent (styleWidth w timer)
         in if navigationProtectionActive s1 \<and> widthCompleted width then markAlerted timer s1 else s1))"

text \<open>The second loop of checkAllTimers, over the monitored timers.\<close>

definition pollTimer :: "'h world \<Rightarrow> 'h state \<Rightarrow> 'h \<Rightarrow> 'h state" where
  "pollTimer w s timer =
     (if \<not> attached w timer then s\<lparr>allTimers := removeAll timer (allTimers s)\<rparr>
      else snd (checkTimer w timer s))"

definition checkAllTimers :: "'h world \<Rightarrow> 'h state \<Rightarrow> 'h state" where
  "checkAllTimers w s =
     (let s1 = foldl (trackTimer w) s (scanForTimers w) in
      foldl (pollTimer w) s1 (allTimers s1))"

text \<open>The marking of a completed timer by initialize and by the visibility listener.\<close>

definition markCompleted :: "'h world \<Rightarrow> 'h state \<Rightarrow> 'h \<Rightarrow> 'h state" where
  "markCompleted w s timer =
     recordSignature w (buildCompletionSignature (extractContext w timer)) (markAlerted timer s)"

text \<open>
  The synchronous part of initialize: the protection window opens, the completed timers
  of the first scan are marked, and the character names of the top bar are stored.
\<close>

definition initialize :: "'h world \<Rightarrow> 'h state \<Rightarrow> 'h state" where
  "initialize w s =
     (let s1 = s\<lparr>navigationProtectionActive := True, allTimers := scanForTimers w\<rparr>;
          completedTimers = filter (\<lambda>t. widthCompleted (getWidthPercent (styleWidth w t))) (allTimers s1);
          s2 = foldl (markCompleted w) s1 completedTimers
      in s2\<lparr>userCharacterNames := extractUserCharacterNames (env w)\<rparr>)"

text \<open>The listener of visibilitychange, when the page has become visible.\<close>

definition onVisible :: "'h world \<Rightarrow> 'h state \<Rightarrow> 'h state" where
  "onVisible w s =
     foldl (\<lambda>s1 t. if widthCompleted (getWidthPercent (styleWidth w t)) then markCompleted w s1 t else s1)
       (s\<lparr>navigationProtectionActive := True\<rparr>) (scanForTimers w)"

text \<open>The callback of the mutation observer, when a timer was added to the document.\<close>

definition onMutation :: "'h world \<Rightarrow> 'h state \<Rightarrow> 'h state" where
  "onMutation w s =
     foldl (\<lambda>s1 t. if t \<in> set (allTimers s1) then s1
                    else maybeAnnounceNewAuction w t (s1\<lparr>allTimers := allTimers s1 @ [t]\<rparr>))
       s (scanForTimers w)"

text \<open>
  The callbacks that change the state: the synchronous part of initialize, the timeout
  that starts the polling, the timeouts that end a protection window, a tick of the
  polling interval, the mutation observer and the visibility listener.
\<close>

datatype 'h callback =
    Initialize "'h world"
  | MonitoringStarts
  | ProtectionEnds
  | Tick "'h world"
  | Mutation "'h world"
  | BecomesVisible "'h world"

fun step :: "'h state \<Rightarrow> 'h callback \<Rightarrow> 'h state" where
  "step s (Initialize w) = initialize w s"
| "step s MonitoringStarts = s\<lparr>initializationComplete := True\<rparr>"
| "step s ProtectionEnds = s\<lparr>navigationProtectionActive := False\<rparr>"
| "step s (Tick w) = checkAllTimers w s"
| "step s (Mutation w) = onMutation w s"
| "step s (BecomesVisible w) = onVisible w s"

definition run :: "'h state \<Rightarrow> 'h callback list \<Rightarrow> 'h state" where
  "run s cbs = foldl step s cbs"

text \<open>The calls of showNotification for one element that a trace holds.\<close>

definition alertsFor :: "'h \<Rightarrow> 'h event list \<Rightarrow> 'h event list" where
  "alertsFor h evs = filter (\<lambda>e. case e of Notification h' _ _ \<Rightarrow> h' = h | _ \<Rightarrow> False) evs"

text \<open>
  What a callback keeps for an element that is in alertedTimers: its notifications in the
  trace, and its membership.
\<close>

definition keeps :: "'h \<Rightarrow> 'h state \<Rightarrow> 'h state \<Rightarrow> bool" where
  "keeps h s s' \<longleftrightarrow> alertsFor h (trace s') = alertsFor h (trace s) \<and> h \<in> alertedTimers s'"

section \<open>Notions of the specification\<close>

text \<open>
  In the words of the specification: a text begins with a numeric token followed by white
  space or a dash.
\<close>

definition startsWithNumericToken :: "string \<Rightarrow> bool" where
  "startsWithNumericToken s \<longleftrightarrow>
     takeWhile isDigit s \<noteq> [] \<and>
     (case dropWhile isDigit s of [] \<Rightarrow> False | c # _ \<Rightarrow> isSepChar c)"

text \<open>
  In the words of the specification: a text begins with the winner's name followed by a
  dash.
\<close>

definition startsWithWinnerDash :: "string \<Rightarrow> string \<Rightarrow> bool" where
  "startsWithWinnerDash win s \<longleftrightarrow> win \<noteq> [] \<and> prefix (win @ ''-'') s"

text \<open>
  The prefix that the extractors look for: the text begins, in any letter case, with the
  winner's name, a space and a dash.
\<close>

definition beginsWithWinner :: "string option \<Rightarrow> string \<Rightarrow> bool" where
  "beginsWithWinner win s \<longleftrightarrow>
     (case win of
        None \<Rightarrow> False
      | Some wn \<Rightarrow> wn \<noteq> [] \<and> s \<noteq> [] \<and> prefix (toLowerCase (trim wn) @ '' -'') (toLowerCase (trim s)))"

text \<open>
  The item text that extractTimerContext cleans: the loop over the \<open>div\<close> elements
  without the cleaning, that is, the trimmed group of the first text of the form
  \<open>name x N\<close>, or else the last fallback text.
\<close>

fun itemDivText :: "string list \<Rightarrow> string option \<Rightarrow> string option" where
  "itemDivText [] cur = cur"
| "itemDivText (d # ds) cur =
     (let text = trim d in
      case lazyPrefix (numberTail CHR ''x'') [] text of
        Some g \<Rightarrow> Some (trim (fst g))
      | None \<Rightarrow>
          if text \<noteq> [] \<and> CHR ''-'' \<notin> set text \<and> CHR ''x'' \<notin> set text \<and> length text > 3
          then itemDivText ds (Some text)
          else itemDivText ds cur)"

text \<open>
  In the words of the specification: the bidders that share the top bid (the roll-off
  participants), and their number.
\<close>

definition topBidders :: "entry list \<Rightarrow> entry list" where
  "topBidders bidders = filter (\<lambda>w. bidOr0 w = Max (set (map bidOr0 bidders))) bidders"

definition topBidCount :: "entry list \<Rightarrow> nat" where
  "topBidCount bidders =
     length (filter (\<lambda>w. bidOr0 w = Max (set (map bidOr0 bidders))) bidders)"

text \<open>
  The bids that the rows of a table show for one name, in the order of the rows: each is the
  bid of a scanned row after the default has been applied.
\<close>

definition bidsOf :: "(string \<times> int option) list \<Rightarrow> string \<Rightarrow> int list" where
  "bidsOf obs name = List.map_filter (\<lambda>nb. if fst nb = name then snd nb else None) obs"

definition observedBids :: "int option \<Rightarrow> domTable \<Rightarrow> string \<Rightarrow> int list" where
  "observedBids defaultBid table name = bidsOf (List.map_filter (scanRow defaultBid) table) name"

text \<open>The map holds, for every name seen in the rows, the highest of its bids.\<close>

definition holdsHighest :: "(string \<times> entry) list \<Rightarrow> (string \<times> int option) list \<Rightarrow> bool" where
  "holdsHighest m obs \<longleftrightarrow>
     distinct (map fst m) \<and>
     (\<forall>name. map_of m name =
        (if bidsOf obs name = [] then None
         else Some \<lparr>ewinner = name, ebid = Some (Max (set (bidsOf obs name)))\<rparr>))"

text \<open>
  The bidder list of a context (empty when rollOffWinners is undefined), and the relation
  between the fields of a context that the shared statements of both extractors establish.
\<close>

definition biddersOf :: "auctionContext \<Rightarrow> entry list" where
  "biddersOf ctx = (case rollOffWinners ctx of Some rws \<Rightarrow> rws | None \<Rightarrow> [])"

definition winnersResolved :: "auctionContext \<Rightarrow> bool" where
  "winnersResolved ctx \<longleftrightarrow>
     isRollOff ctx = computeIsRollOff (biddersOf ctx) (rollOffBid ctx) (quantity ctx) \<and>
     actualWinners ctx =
       (let aw = computeActualWinners (isRollOff ctx) (biddersOf ctx) (bidAmount ctx)
                   (quantity ctx) (winner ctx)
        in if length aw > 0 then Some aw else None)"

section \<open>Example documents\<close>

text \<open>
  A row of the auctions table: row number, winner link, item text, bid, timer, time
  stamp.
\<close>

definition textCell :: "string \<Rightarrow> cell" where
  "textCell t = \<lparr>textContent = t, links = [], numberInput = None\<rparr>"

definition linkCell :: "string \<Rightarrow> cell" where
  "linkCell t = \<lparr>textContent = t, links = [(''#/characters/'' @ t, t)], numberInput = None\<rparr>"

definition auctionRow :: "string \<Rightarrow> string \<Rightarrow> string \<Rightarrow> cell list" where
  "auctionRow win item bid =
     [textCell ''1'', linkCell win, textCell item, textCell bid, textCell [], textCell ''12:00'']"

definition talismanDom :: tableDom where
  "talismanDom =
     \<lparr>timerRow = Some (auctionRow ''Bob'' ''150 Yelinak's Talisman x 1'' ''150''),
      parentRows = Some [auctionRow ''Bob'' ''150 Yelinak's Talisman x 1'' ''150'']\<rparr>"

definition noTab :: tabDom where
  "noTab = \<lparr>hasContainer = False, containerId = [], tabOffsetText = None, divTexts = [],
            panelByTabId = Matched None, panelByLabel = Matched None,
      activePanel = None\<rparr>"

text \<open>The default settings of the source, and a browser at 20:30.\<close>

definition defaultConfig :: settings where
  "defaultConfig =
     \<lparr>SMART_BIDDING = False, SOUND_PROFILE = ''raidleader'', QUIET_HOURS = False,
      QUIET_START = ''22:00'', QUIET_END = ''08:00'', DISABLE_VISUALS = False,
      FLASH_SCREEN = True, BROWSER_NOTIFICATIONS = True\<rparr>"

definition eveningBrowser :: browser where
  "eveningBrowser =
     \<lparr>hours = 20, minutes = 30, nowMs = 1700000000000, topbarLinkTexts = [''Alice [120]''],
      bidElementsPresent = False, bidActivity = None, notificationPermission = Granted,
      announceConditions = False\<rparr>"

text \<open>A page without timers, and a page whose only timer, element 1, stands at 0 percent.\<close>

definition emptyWorld :: "nat world" where
  "emptyWorld =
     \<lparr>timers = [], styleWidth = (\<lambda>h. None), attached = (\<lambda>h. True),
      tableDomOf = (\<lambda>h. talismanDom), tabDomOf = (\<lambda>h. noTab),
      config = defaultConfig, env = eveningBrowser\<rparr>"

definition talismanWorld :: "nat world" where
  "talismanWorld =
     \<lparr>timers = [1], styleWidth = (\<lambda>h. Some ''0%''), attached = (\<lambda>h. True),
      tableDomOf = (\<lambda>h. talismanDom), tabDomOf = (\<lambda>h. noTab),
      config = defaultConfig, env = eveningBrowser\<rparr>"

text \<open>The context that extractTableContext returns for the row above.\<close>

definition talismanContext :: auctionContext where
  "talismanContext =
     \<lparr>winner = Some ''Bob'', bidAmount = Some 150, itemName = Some ''Yelinak's Talisman'',
      quantity = Some 1, noBid = False, isTableStructure = True,
      rollOffWinners = Some [\<lparr>ewinner = ''Bob'', ebid = Some 150\<rparr>],
      rollOffBid = None, isRollOff = False, multipleWinners = False,
      actualWinners = Some [\<lparr>ewinner = ''Bob'', ebid = Some 150\<rparr>]\<rparr>"

text \<open>The state after the polling has started and the protection window has ended.\<close>

definition monitoringState :: "nat state" where
  "monitoringState = initialState\<lparr>initializationComplete := True\<rparr>"

text \<open>
  The same state when the signature of the talisman auction was recorded ten seconds
  before the browser's time.
\<close>

definition recentState :: "nat state" where
  "recentState = monitoringState\<lparr>recentCompletedMap := [(''yelinak's talisman|bob|150'', 1699999990000)]\<rparr>"

text \<open>
  A raider with smart bidding at 23:00 inside the quiet hours; the only character of the
  account is Alice.
\<close>

definition raiderQuietConfig :: settings where
  "raiderQuietConfig = defaultConfig\<lparr>SMART_BIDDING := True, SOUND_PROFILE := ''raider'', QUIET_HOURS := True\<rparr>"

definition quietConfig :: settings where
  "quietConfig = defaultConfig\<lparr>QUIET_HOURS := True\<rparr>"

definition nightBrowser :: browser where
  "nightBrowser = eveningBrowser\<lparr>hours := 23, minutes := 0\<rparr>"

text \<open>A row whose item text carries two leading numbers.\<close>

definition daggerDom :: tableDom where
  "daggerDom =
     \<lparr>timerRow = Some (auctionRow ''Bob'' ''10 20 Dagger x 1'' ''10''),
      parentRows = Some [auctionRow ''Bob'' ''10 20 Dagger x 1'' ''10'']\<rparr>"

text \<open>
  A bids table with a header row and the history of the bids, and the tab of an auction
  for one sword whose header names Bob with 1000 and whose bids table shows Bob and Sue at
  1000 and Amy at 800.
\<close>

definition headerRow :: tableRow where
  "headerRow = \<lparr>hasTh = True, tds = []\<rparr>"

definition bidRow :: "string \<Rightarrow> string \<Rightarrow> tableRow" where
  "bidRow name bid = \<lparr>hasTh = False, tds = [textCell ''1'', linkCell name, textCell bid]\<rparr>"

definition historyTable :: domTable where
  "historyTable =
     [headerRow, bidRow ''Bob'' ''500'', bidRow ''Bob'' ''1000'', bidRow ''Bob'' ''700'',
      bidRow ''Sue'' ''800'']"

definition tieTable :: domTable where
  "tieTable = [headerRow, bidRow ''Bob'' ''1000'', bidRow ''Sue'' ''1000'', bidRow ''Amy'' ''800'']"

definition tieTab :: tabDom where
  "tieTab =
     \<lparr>hasContainer = True, containerId = ''pr_id_1_header_action'',
      tabOffsetText = Some ''Bob - 1000'', divTexts = [''Bob - 1000'', ''Sword x 1''],
      panelByTabId = Matched (Some [tieTable]), panelByLabel = Matched None,
      activePanel = None\<rparr>"

text \<open>The same three rows in the table shape, for one sword and for two swords.\<close>

definition tieRows :: "string \<Rightarrow> cell list list" where
  "tieRows item = [auctionRow ''Bob'' item ''1000'', auctionRow ''Sue'' item ''1000'',
                   auctionRow ''Amy'' item ''800'']"

definition tieDom :: "string \<Rightarrow> tableDom" where
  "tieDom item = \<lparr>timerRow = Some (auctionRow ''Bob'' item ''1000''), parentRows = Some (tieRows item)\<rparr>"

text \<open>
  A tab whose header lists two winners with their bids and a third name without a bid.
\<close>

definition listTab :: tabDom where
  "listTab =
     \<lparr>hasContainer = True, containerId = ''pr_id_2_header_action'',
      tabOffsetText = Some ''Ann - 5, Ben - 6, Cid'',
      divTexts = [''Ann - 5, Ben - 6, Cid'', ''Sword x 1''],
      panelByTabId = Matched None, panelByLabel = Matched None,
      activePanel = None\<rparr>"

text \<open>The contexts that the extractors return for these documents.\<close>

definition bob1000 :: entry where
  "bob1000 = \<lparr>ewinner = ''Bob'', ebid = Some 1000\<rparr>"

definition sue1000 :: entry where
  "sue1000 = \<lparr>ewinner = ''Sue'', ebid = Some 1000\<rparr>"

definition amy800 :: entry where
  "amy800 = \<lparr>ewinner = ''Amy'', ebid = Some 800\<rparr>"

definition tieContextOne :: auctionContext where
  "tieContextOne =
     \<lparr>winner = Some ''Bob'', bidAmount = Some 1000, itemName = Some ''Sword'',
      quantity = Some 1, noBid = False, isTableStructure = True,
      rollOffWinners = Some [bob1000, sue1000], rollOffBid = Some 1000, isRollOff = True,
      multipleWinners = True, actualWinners = Some [bob1000, sue1000]\<rparr>"

definition tieContextTwo :: auctionContext where
  "tieContextTwo =
     \<lparr>winner = Some ''Bob'', bidAmount = Some 1000, itemName = Some ''Sword'',
      quantity = Some 2, noBid = False, isTableStructure = True,
      rollOffWinners = Some [bob1000, sue1000], rollOffBid = Some 1000, isRollOff = False,
      multipleWinners = True, actualWinners = Some [bob1000, sue1000]\<rparr>"

definition tieTabContext :: auctionContext where
  "tieTabContext =
     \<lparr>winner = Some ''Bob'', bidAmount = Some 1000, itemName = Some ''Sword'',
      quantity = Some 1, noBid = False, isTableStructure = False,
      rollOffWinners = Some [bob1000, sue1000, amy800], rollOffBid = None, isRollOff = False,
      multipleWinners = False, actualWinners = Some [bob1000]\<rparr>"

definition listTabContext :: auctionContext where
  "listTabContext =
     \<lparr>winner = None, bidAmount = None, itemName = Some ''Sword'',
      quantity = Some 1, noBid = True, isTableStructure = False,
      rollOffWinners = Some [\<lparr>ewinner = ''Ann'', ebid = Some 5\<rparr>, \<lparr>ewinner = ''Ben'', ebid = Some 6\<rparr>],
      rollOffBid = None, isRollOff = False,
      multipleWinners = False, actualWinners = None\<rparr>"

text \<open>A bids table in which the second row of Sue shows no bid.\<close>

definition missingBidTable :: domTable where
  "missingBidTable = [headerRow, bidRow ''Sue'' ''800'', bidRow ''Sue'' []]"

text \<open>
  The tab of the sword auction when its header lists Bob and Sue at 1000: the header sets the
  roll-off bid, and the bids table with Amy at 800 replaces the bidder list.
\<close>

definition staleTab :: tabDom where
  "staleTab =
     \<lparr>hasContainer = True, containerId = ''pr_id_1_header_action'',
      tabOffsetText = Some ''Bob - 1000, Sue - 1000'',
      divTexts = [''Bob - 1000, Sue - 1000'', ''Sword x 1''],
      panelByTabId = Matched (Some [tieTable]), panelByLabel = Matched None,
      activePanel = None\<rparr>"

definition staleTabContext :: auctionContext where
  "staleTabContext =
     \<lparr>winner = Some ''Bob - 1000, Sue'', bidAmount = Some 1000, itemName = Some ''Sword'',
      quantity = Some 1, noBid = False, isTableStructure = False,
      rollOffWinners = Some [bob1000, sue1000, amy800], rollOffBid = Some 1000, isRollOff = True,
      multipleWinners = True, actualWinners = Some [bob1000, sue1000, amy800]\<rparr>"

text \<open>
  The same tab when only the bids table shows the tie, with Bob and Sue at 1000 and nobody
  else.
\<close>

definition pairTable :: domTable where
  "pairTable = [headerRow, bidRow ''Bob'' ''1000'', bidRow ''Sue'' ''1000'']"

definition pairTab :: tabDom where
  "pairTab =
     \<lparr>hasContainer = True, containerId = ''pr_id_1_header_action'',
      tabOffsetText = Some ''Bob - 1000'', divTexts = [''Bob - 1000'', ''Sword x 1''],
      panelByTabId = Matched (Some [pairTable]), panelByLabel = Matched None,
      activePanel = None\<rparr>"

definition pairTabContext :: auctionContext where
  "pairTabContext =
     \<lparr>winner = Some ''Bob'', bidAmount = Some 1000, itemName = Some ''Sword'',
      quantity = Some 1, noBid = False, isTableStructure = False,
      rollOffWinners = Some [bob1000, sue1000], rollOffBid = Some 1000, isRollOff = True,
      multipleWinners = True, actualWinners = Some [bob1000, sue1000]\<rparr>"

text \<open>The talisman auction in the tab shape.\<close>

definition talismanTab :: tabDom where
  "talismanTab =
     \<lparr>hasContainer = True, containerId = ''pr_id_3_header_action'',
      tabOffsetText = Some ''Bob - 150'',
      divTexts = [''Bob - 150'', ''150 Yelinak's Talisman x 1''],
      panelByTabId = Matched None, panelByLabel = Matched None,
      activePanel = None\<rparr>"

definition talismanTabContext :: auctionContext where
  "talismanTabContext =
     \<lparr>winner = Some ''Bob'', bidAmount = Some 150, itemName = Some ''Yelinak's Talisman'',
      quantity = Some 1, noBid = False, isTableStructure = False,
      rollOffWinners = None, rollOffBid = None, isRollOff = False, multipleWinners = False,
      actualWinners = Some [\<lparr>ewinner = ''Bob'', ebid = Some 150\<rparr>]\<rparr>"

text \<open>
  Rows whose item text repeats the winner in front of the item: followed by a space and a
  dash, and followed by a dash at once.
\<close>

definition prefixedDom :: tableDom where
  "prefixedDom =
     \<lparr>timerRow = Some (auctionRow ''Bob'' ''Bob - Sword x 1'' ''40''),
      parentRows = Some [auctionRow ''Bob'' ''Bob - Sword x 1'' ''40'']\<rparr>"

definition prefixedContext :: auctionContext where
  "prefixedContext =
     \<lparr>winner = Some ''Bob'', bidAmount = Some 40, itemName = Some ''Sword'',
      quantity = Some 1, noBid = False, isTableStructure = True,
      rollOffWinners = Some [\<lparr>ewinner = ''Bob'', ebid = Some 40\<rparr>],
      rollOffBid = None, isRollOff = False, multipleWinners = False,
      actualWinners = Some [\<lparr>ewinner = ''Bob'', ebid = Some 40\<rparr>]\<rparr>"

definition dashDom :: tableDom where
  "dashDom =
     \<lparr>timerRow = Some (auctionRow ''Bob'' ''Bob- Sword x 1'' ''40''),
      parentRows = Some [auctionRow ''Bob'' ''Bob- Sword x 1'' ''40'']\<rparr>"

text \<open>A width of 1 followed by 309 zeros, in percent.\<close>

definition hugeWidth :: string where
  "hugeWidth = CHR ''1'' # replicate 309 CHR ''0'' @ ''%''"

text \<open>A width of 324 zeros and a 1 behind the decimal point, in percent.\<close>

definition tinyWidth :: string where
  "tinyWidth = ''0.'' @ replicate 324 CHR ''0'' @ ''1%''"

text \<open>
  The tab of the sword auction when the id of its container holds a quotation mark, so that
  the selector built from the id is not valid.
\<close>

definition brokenTab :: tabDom where
  "brokenTab =
     \<lparr>hasContainer = True, containerId = ''pr_id_1'' @ [CHR 0x22] @ ''_header_action'',
      tabOffsetText = Some ''Bob - 1000'', divTexts = [''Bob - 1000'', ''Sword x 1''],
      panelByTabId = InvalidSelector, panelByLabel = InvalidSelector,
      activePanel = Some [tieTable]\<rparr>"

section \<open>Properties of getWidthPercent\<close>


lemma not_digit_percent: "\<not> isDigit CHR ''%''" and not_digit_dot: "\<not> isDigit CHR ''.''"
  by (simp_all add: isDigit_def)

lemma widthMatch_complete:
  assumes "unsignedDecimalPercent s"
  shows "widthMatch s \<noteq> None"
proof -
  from assms obtain d1 where d1: "d1 \<noteq> []" "\<forall>c \<in> set d1. isDigit c"
    and s: "s = d1 @ ''%'' \<or> (\<exists>d2. d2 \<noteq> [] \<and> (\<forall>c \<in> set d2. isDigit c) \<and> s = d1 @ ''.'' @ d2 @ ''%'')"
    unfolding unsignedDecimalPercent_def by blast
  from s show ?thesis
  proof
    assume e: "s = d1 @ ''%''"
    have "takeWhile isDigit s = d1" "dropWhile isDigit s = ''%''"
      using d1 e by (simp_all add: takeWhile_append2 dropWhile_append2 not_digit_percent)
    then show ?thesis using d1 by (simp add: widthMatch_def)
  next
    assume "\<exists>d2. d2 \<noteq> [] \<and> (\<forall>c \<in> set d2. isDigit c) \<and> s = d1 @ ''.'' @ d2 @ ''%''"
    then obtain d2 where d2: "d2 \<noteq> []" "\<forall>c \<in> set d2. isDigit c" and e: "s = d1 @ ''.'' @ d2 @ ''%''"
      by blast
    have a: "takeWhile isDigit s = d1" "dropWhile isDigit s = CHR ''.'' # d2 @ ''%''"
      using d1 e by (simp_all add: takeWhile_append2 dropWhile_append2 not_digit_dot)
    have b: "takeWhile isDigit (d2 @ ''%'') = d2" "dropWhile isDigit (d2 @ ''%'') = ''%''"
      using d2 by (simp_all add: takeWhile_append2 dropWhile_append2 not_digit_percent)
    show ?thesis using d1 d2 a b by (simp add: widthMatch_def)
  qed
qed

lemma widthMatch_sound:
  assumes "widthMatch s \<noteq> None"
  shows "unsignedDecimalPercent s"
proof -
  let ?d1 = "takeWhile isDigit s" and ?r1 = "dropWhile isDigit s"
  have s: "s = ?d1 @ ?r1" by simp
  have dig1: "\<forall>c \<in> set ?d1. isDigit c" by (auto dest: set_takeWhileD)
  from assms have ne: "?d1 \<noteq> []" by (auto simp: widthMatch_def Let_def)
  show ?thesis
  proof (cases "?r1 = ''%''")
    case True
    then have "s = ?d1 @ ''%''" using s by metis
    then show ?thesis unfolding unsignedDecimalPercent_def using ne dig1 by blast
  next
    case False
    with assms ne obtain r2 where r1: "?r1 = CHR ''.'' # r2"
      and d2: "takeWhile isDigit r2 \<noteq> []" and r3: "dropWhile isDigit r2 = ''%''"
      by (auto simp: widthMatch_def Let_def split: list.splits if_splits)
    let ?d2 = "takeWhile isDigit r2"
    have "r2 = ?d2 @ ''%''" using r3 takeWhile_dropWhile_id[of isDigit r2] by metis
    then have "s = ?d1 @ ''.'' @ ?d2 @ ''%''" using s r1 by (metis append_Cons append_Nil)
    moreover have "\<forall>c \<in> set ?d2. isDigit c" by (auto dest: set_takeWhileD)
    ultimately show ?thesis unfolding unsignedDecimalPercent_def using ne dig1 d2 by blast
  qed
qed

lemma decimalValue_nonneg: "0 \<le> decimalValue p"
  by (simp add: decimalValue_def)

lemma pow2_pos: "0 < pow2 k"
  by (simp add: pow2_def)

lemma pow2_powi: "pow2 k = 2 powi k"
  by (simp add: pow2_def power_int_def inverse_eq_divide power_one_over)

lemma pow2_sub: "pow2 (a - b) = pow2 a / pow2 b"
  by (simp add: pow2_powi power_int_diff)

lemma pow2_diff:
  assumes "0 \<le> a" "0 \<le> b"
  shows "pow2 (a - b) = 2 ^ nat a / 2 ^ nat b"
proof -
  have "pow2 a = 2 ^ nat a" "pow2 b = 2 ^ nat b" using assms by (simp_all add: pow2_def)
  then show ?thesis by (simp add: pow2_sub)
qed

lemma binaryExponent_lower:
  assumes "0 < x"
  shows "pow2 (binaryExponent x) \<le> x"
proof -
  obtain p q where pq: "quotient_of x = (p, q)" by (cases "quotient_of x") auto
  then have q: "0 < q" and x: "x = of_int p / of_int q"
    using quotient_of_denom_pos[of x p q] quotient_of_div[of x p q] by auto
  have p: "0 < p" using assms q x by (simp add: zero_less_divide_iff)
  let ?k = "bitlen p - bitlen q"
  show ?thesis
  proof (cases "pow2 ?k \<le> x")
    case True
    then show ?thesis using pq by (simp add: binaryExponent_def)
  next
    case False
    have bp: "2 ^ nat (bitlen p - 1) \<le> p" and bq: "q < 2 ^ nat (bitlen q)"
      using bitlen_bounds[OF p] bitlen_bounds[OF q] by auto
    have bp1: "1 \<le> bitlen p" and bq1: "0 \<le> bitlen q"
      using p q bitlen_nonneg by (auto simp: bitlen_def floorlog_def)
    have "pow2 (?k - 1) = 2 ^ nat (bitlen p - 1) / 2 ^ nat (bitlen q)"
      using pow2_diff[of "bitlen p - 1" "bitlen q"] bp1 bq1 by (simp add: algebra_simps)
    also have "\<dots> \<le> of_int p / 2 ^ nat (bitlen q)"
    proof -
      have "(of_int (2 ^ nat (bitlen p - 1)) :: rat) \<le> of_int p" using bp by (simp only: of_int_le_iff)
      then show ?thesis by (simp add: divide_right_mono)
    qed
    also have "\<dots> \<le> of_int p / of_int q"
    proof -
      have "(of_int q :: rat) \<le> of_int (2 ^ nat (bitlen q))" using bq by (simp only: of_int_le_iff)
      then show ?thesis using p q by (simp add: frac_le)
    qed
    finally have "pow2 (?k - 1) \<le> x" using x by simp
    then show ?thesis using False pq by (simp add: binaryExponent_def)
  qed
qed

text \<open>The rounding stays within half a spacing of the argument.\<close>

lemma roundToDouble_near:
  assumes "0 < x"
  obtains r where "roundToDouble x = (if pow2 1024 \<le> r then Infinity else Finite r)"
    and "0 \<le> r" and "x - max x (pow2 (- 1022)) / 2 ^ 53 \<le> r"
    and "r \<le> x + max x (pow2 (- 1022)) / 2 ^ 53"
proof -
  define e where "e = max (binaryExponent x) (- 1022)"
  define ulp where "ulp = pow2 (e - 52)"
  define q where "q = x / ulp"
  define f where "f = \<lfloor>q\<rfloor>"
  define n where "n = (if q - of_int f < 1 / 2 then f
                  else if 1 / 2 < q - of_int f then f + 1
                  else if even f then f else f + 1)"
  define r where "r = of_int n * ulp"
  have u: "0 < ulp" by (simp add: ulp_def pow2_pos)
  have rd: "roundToDouble x = (if pow2 1024 \<le> r then Infinity else Finite r)"
    using assms unfolding roundToDouble_def Let_def r_def n_def f_def q_def ulp_def e_def by simp
  have q0: "0 \<le> q" using assms u by (simp add: q_def)
  then have f0: "0 \<le> f" by (simp add: f_def)
  have fl: "of_int f \<le> q" "q < of_int f + 1" by (simp_all add: f_def) linarith
  have n0: "0 \<le> n" using f0 by (simp add: n_def)
  have near: "q - 1 / 2 \<le> of_int n" "of_int n \<le> q + 1 / 2"
    using fl by (auto simp: n_def)
  have r0: "0 \<le> r" using n0 u by (simp add: r_def)
  have pe: "pow2 e \<le> max x (pow2 (- 1022))"
    using binaryExponent_lower[OF assms] by (auto simp: e_def max_def)
  have "pow2 52 = 2 ^ 52" by (simp add: pow2_def)
  then have "ulp = pow2 e / 2 ^ 52" by (simp add: ulp_def pow2_sub)
  then have half: "ulp / 2 \<le> max x (pow2 (- 1022)) / 2 ^ 53"
    using pe by (simp add: field_simps)
  have x: "x = q * ulp" using u by (simp add: q_def)
  have "(q - 1 / 2) * ulp \<le> r" "r \<le> (q + 1 / 2) * ulp"
    using near u by (simp_all add: r_def mult_right_mono)
  then have "x - ulp / 2 \<le> r" "r \<le> x + ulp / 2"
    using x by (simp_all add: algebra_simps)
  with half have "x - max x (pow2 (- 1022)) / 2 ^ 53 \<le> r" "r \<le> x + max x (pow2 (- 1022)) / 2 ^ 53"
    by linarith+
  with rd r0 that show thesis by blast
qed

lemma roundToDouble_nonneg:
  assumes "0 \<le> x"
  shows "roundToDouble x = Infinity \<or> (\<exists>r. roundToDouble x = Finite r \<and> 0 \<le> r)"
proof (cases "x = 0")
  case True
  then show ?thesis by (simp add: roundToDouble_def)
next
  case False
  with assms have "0 < x" by simp
  from roundToDouble_near[OF this] show ?thesis by metis
qed

lemma roundToDouble_finite:
  assumes "0 \<le> x" "x < 10 ^ 308"
  shows "roundToDouble x \<noteq> Infinity"
proof (cases "x = 0")
  case True
  then show ?thesis by (simp add: roundToDouble_def)
next
  case False
  with assms have p: "0 < x" by simp
  from roundToDouble_near[OF p] obtain r where
    rd: "roundToDouble x = (if pow2 1024 \<le> r then Infinity else Finite r)"
    and up: "r \<le> x + max x (pow2 (- 1022)) / 2 ^ 53" by metis
  have "pow2 (- 1022) \<le> 1" by (simp add: pow2_def)
  then have "max x (pow2 (- 1022)) \<le> 10 ^ 308" using assms(2) by (simp add: max_def)
  then have "max x (pow2 (- 1022)) / 2 ^ 53 \<le> 10 ^ 308 / 2 ^ 53"
    by (simp add: divide_right_mono)
  with up assms(2) have "r < 10 ^ 308 + 10 ^ 308 / 2 ^ 53" by linarith
  also have "\<dots> < pow2 1024" by (simp add: pow2_def)
  finally show ?thesis using rd by simp
qed

lemma roundToDouble_overflow:
  assumes "10 ^ 309 \<le> x"
  shows "roundToDouble x = Infinity"
proof -
  have p: "0 < x" using assms by (rule less_le_trans[rotated]) simp
  from roundToDouble_near[OF p] obtain r where
    rd: "roundToDouble x = (if pow2 1024 \<le> r then Infinity else Finite r)"
    and lo: "x - max x (pow2 (- 1022)) / 2 ^ 53 \<le> r" by metis
  have "pow2 (- 1022) \<le> 1" by (simp add: pow2_def)
  moreover have "(1::rat) \<le> 10 ^ 309" by simp
  ultimately have "max x (pow2 (- 1022)) = x" using assms by (simp add: max_def)
  then have "x - x / 2 ^ 53 \<le> r" using lo by simp
  moreover have "x / 2 \<le> x - x / 2 ^ 53" using p by (simp add: field_simps)
  moreover have "pow2 1024 \<le> 10 ^ 309 / 2" by (simp add: pow2_def)
  ultimately have "pow2 1024 \<le> r" using assms by linarith
  then show ?thesis using rd by simp
qed


lemma roundToDouble_underflow:
  assumes "0 \<le> x" "x < pow2 (- 1075)"
  shows "roundToDouble x = Finite 0"
proof (cases "x = 0")
  case True
  then show ?thesis by (simp add: roundToDouble_def)
next
  case False
  with assms have p: "0 < x" by simp
  have small: "pow2 (- 1075) \<le> pow2 (- 1021)" by (simp add: pow2_def)
  have "binaryExponent x \<le> - 1022"
  proof (rule ccontr)
    assume "\<not> binaryExponent x \<le> - 1022"
    then have "- 1021 \<le> binaryExponent x" by simp
    then have "pow2 (- 1021) \<le> pow2 (binaryExponent x)"
      unfolding pow2_powi by (intro power_int_increasing) simp_all
    with binaryExponent_lower[OF p] small assms(2) show False by linarith
  qed
  then have e: "max (binaryExponent x) (- 1022) = - 1022" by simp
  have u: "pow2 (- 1022 - 52) = 2 * pow2 (- 1075)" by (simp add: pow2_def)
  define q where "q = x / (2 * pow2 (- 1075))"
  have q: "0 \<le> q" "q < 1 / 2"
    using p assms(2) pow2_pos[of "- 1075"] by (simp_all add: q_def field_simps)
  then have f: "\<lfloor>q\<rfloor> = 0" by (simp add: floor_eq_iff)
  have "\<not> pow2 1024 \<le> 0" using pow2_pos[of 1024] by simp
  then show ?thesis
    using False q f unfolding roundToDouble_def Let_def e u q_def[symmetric] by simp
qed

lemma widthMatch_integer:
  assumes "ds \<noteq> []" "\<forall>c \<in> set ds. isDigit c"
  shows "widthMatch (ds @ ''%'') = Some (ds, [])"
proof -
  have "takeWhile isDigit (ds @ ''%'') = ds" "dropWhile isDigit (ds @ ''%'') = ''%''"
    using assms by (simp_all add: takeWhile_append2 dropWhile_append2 not_digit_percent)
  then show ?thesis using assms(1) by (simp add: widthMatch_def)
qed

lemma digitsVal_zeros:
  "foldl (\<lambda>acc c. 10 * acc + digitVal c) a (replicate n CHR ''0'') = a * 10 ^ n"
  by (induction n arbitrary: a) (simp_all add: digitVal_def)

lemma widthMatch_digits:
  assumes "widthMatch s = Some m"
  shows "fst m = takeWhile isDigit s"
  using assms by (auto simp: widthMatch_def Let_def split: if_splits list.splits)

lemma digitsVal_bound: "digitsVal ds < 10 ^ length ds" if "\<forall>c \<in> set ds. isDigit c"
  using that
proof (induction ds rule: rev_induct)
  case Nil
  then show ?case by (simp add: digitsVal_def)
next
  case (snoc c ds)
  then have "isDigit c" by simp
  then have "digitVal c \<le> 9" by (auto simp: isDigit_def digitVal_def)
  moreover have "digitsVal ds + 1 \<le> 10 ^ length ds" using snoc by simp
  then have "10 * digitsVal ds + 10 \<le> 10 * 10 ^ length ds" by linarith
  ultimately show ?case by (simp add: digitsVal_def)
qed

lemma decimalValue_bound:
  assumes "\<forall>c \<in> set (fst m). isDigit c" "\<forall>c \<in> set (snd m). isDigit c"
  shows "decimalValue m < 10 ^ length (fst m)"
proof -
  have a: "digitsVal (fst m) + 1 \<le> 10 ^ length (fst m)"
    using digitsVal_bound[OF assms(1)] by simp
  have "(of_nat (digitsVal (snd m)) :: rat) < of_nat (10 ^ length (snd m))"
    using digitsVal_bound[OF assms(2)] by (simp only: of_nat_less_iff)
  then have b: "(of_nat (digitsVal (snd m)) :: rat) / 10 ^ length (snd m) < 1"
    by simp
  have "(of_nat (digitsVal (fst m) + 1) :: rat) \<le> of_nat (10 ^ length (fst m))"
    using a by (simp only: of_nat_le_iff)
  then have "(of_nat (digitsVal (fst m)) :: rat) + 1 \<le> 10 ^ length (fst m)" by simp
  with b show ?thesis unfolding decimalValue_def by linarith
qed

lemma widthMatch_all_digits:
  assumes "widthMatch s = Some m"
  shows "(\<forall>c \<in> set (fst m). isDigit c) \<and> (\<forall>c \<in> set (snd m). isDigit c)"
  using assms
  by (auto simp: widthMatch_def Let_def split: if_splits list.splits dest: set_takeWhileD)

text \<open>
  A positive width below the smallest double parses to the number 0, and the completion
  test succeeds for it.
\<close>

lemma getWidthPercent_underflow:
  "getWidthPercent (Some tinyWidth) = Some (Finite 0) \<and> widthCompleted (getWidthPercent (Some tinyWidth))"
proof -
  let ?d2 = "replicate 324 CHR ''0'' @ ''1''"
  have s: "tinyWidth = ''0'' @ ''.'' @ ?d2 @ ''%''" by (simp add: tinyWidth_def)
  have d2: "?d2 \<noteq> []" "\<forall>c \<in> set ?d2. isDigit c" by (auto simp: isDigit_def)
  have a: "takeWhile isDigit tinyWidth = ''0''" "dropWhile isDigit tinyWidth = CHR ''.'' # ?d2 @ ''%''"
    unfolding s by (simp_all add: isDigit_def)
  have b: "takeWhile isDigit (?d2 @ ''%'') = ?d2" "dropWhile isDigit (?d2 @ ''%'') = ''%''"
    using d2(2) by (simp_all only: takeWhile_append2 dropWhile_append2, simp_all add: not_digit_percent)
  have m: "widthMatch tinyWidth = Some (''0'', ?d2)"
    using a b d2(1) by (simp add: widthMatch_def)
  have "digitVal CHR ''1'' = 1" "digitVal CHR ''0'' = 0" by (simp_all add: digitVal_def)
  then have "digitsVal ?d2 = 1" "digitsVal ''0'' = 0"
    unfolding digitsVal_def foldl_append digitsVal_zeros by simp_all
  then have v: "decimalValue (''0'', ?d2) = 1 / 10 ^ 325"
    by (simp add: decimalValue_def)
  have "roundToDouble (decimalValue (''0'', ?d2)) = Finite 0"
    unfolding v by (rule roundToDouble_underflow) (simp_all add: pow2_def)
  moreover have "tinyWidth \<noteq> []" by (simp add: tinyWidth_def)
  ultimately have "getWidthPercent (Some tinyWidth) = Some (Finite 0)"
    using m by (simp add: getWidthPercent_def parseFloat_def)
  then show ?thesis by (simp add: widthCompleted_def numLessEq_def)
qed

text \<open>
  C10, as amended.  getWidthPercent is total: it returns null exactly when the inline width
  is absent or is not an unsigned decimal number immediately followed by a percent sign;
  every number it returns is non-negative, that is, Infinity or a finite double that is not
  negative, and it is finite whenever the integer part of the width has at most 308 digits;
  so the completion test \<open>width \<le> 0\<close> succeeds only when the parsed width is the number 0.
\<close>

theorem getWidthPercent_total_nonnegative:
  "(getWidthPercent w = None \<longleftrightarrow> (w = None \<or> \<not> unsignedDecimalPercent (the w))) \<and>
   (\<forall>v. getWidthPercent w = Some v \<longrightarrow> v = Infinity \<or> (\<exists>r. v = Finite r \<and> 0 \<le> r)) \<and>
   (\<forall>s. w = Some s \<and> length (takeWhile isDigit s) \<le> 308 \<longrightarrow> getWidthPercent w \<noteq> Some Infinity) \<and>
   (widthCompleted (getWidthPercent w) \<longrightarrow> getWidthPercent w = Some (Finite 0))"
proof -
  have nonneg: "v = Infinity \<or> (\<exists>r. v = Finite r \<and> 0 \<le> r)" if "getWidthPercent w = Some v" for v
    using that roundToDouble_nonneg[OF decimalValue_nonneg]
    by (auto simp: getWidthPercent_def parseFloat_def split: option.splits if_splits)
  have empty: "\<not> unsignedDecimalPercent []"
    by (simp add: unsignedDecimalPercent_def)
  have null: "getWidthPercent w = None \<longleftrightarrow> (w = None \<or> \<not> unsignedDecimalPercent (the w))"
  proof (cases w)
    case None
    then show ?thesis by (simp add: getWidthPercent_def)
  next
    case (Some s)
    show ?thesis
    proof (cases "s = []")
      case True
      with Some empty show ?thesis by (simp add: getWidthPercent_def)
    next
      case False
      with Some widthMatch_sound[of s] widthMatch_complete[of s] show ?thesis
        by (auto simp: getWidthPercent_def split: option.splits)
    qed
  qed
  have finite: "getWidthPercent w \<noteq> Some Infinity"
    if h: "w = Some s" "length (takeWhile isDigit s) \<le> 308" for s
  proof
    assume inf: "getWidthPercent w = Some Infinity"
    with h(1) obtain m where m: "widthMatch s = Some m" "roundToDouble (decimalValue m) = Infinity"
      by (auto simp: getWidthPercent_def parseFloat_def split: option.splits if_splits)
    from widthMatch_digits[OF m(1)] h(2) have len: "length (fst m) \<le> 308" by simp
    have "decimalValue m < 10 ^ length (fst m)"
      using widthMatch_all_digits[OF m(1)] by (intro decimalValue_bound) auto
    also have "(10::rat) ^ length (fst m) \<le> 10 ^ 308"
      using len by (intro power_increasing) simp_all
    finally have "roundToDouble (decimalValue m) \<noteq> Infinity"
      using decimalValue_nonneg by (intro roundToDouble_finite) auto
    with m(2) show False by simp
  qed
  have zero: "getWidthPercent w = Some (Finite 0)" if "widthCompleted (getWidthPercent w)"
  proof -
    from that obtain v where v: "getWidthPercent w = Some v" "numLessEq v 0"
      by (auto simp: widthCompleted_def split: option.splits)
    with nonneg[of v] show ?thesis by (auto simp: numLessEq_def)
  qed
  from nonneg null finite zero show ?thesis by blast
qed

theorem getWidthPercent_total_nonnegative_witness:
  "getWidthPercent (Some ''0%'') = Some (Finite 0) \<and> widthCompleted (getWidthPercent (Some ''0%'')) \<and>
   unsignedDecimalPercent ''0%'' \<and>
   getWidthPercent (Some ''12.5%'') = Some (Finite (25 / 2)) \<and>
   getWidthPercent (Some ''-5%'') = None \<and> \<not> unsignedDecimalPercent ''-5%''"
proof -
  have a: "getWidthPercent (Some ''0%'') = Some (Finite 0)" by code_simp
  have b: "getWidthPercent (Some ''-5%'') = None" by code_simp
  have f: "getWidthPercent (Some ''12.5%'') = Some (Finite (25 / 2))" by code_simp
  from a have c: "widthCompleted (getWidthPercent (Some ''0%''))"
    by (simp add: widthCompleted_def numLessEq_def)
  have d: "unsignedDecimalPercent ''0%''"
    using a getWidthPercent_total_nonnegative [of "Some ''0%''"] by auto
  have e: "\<not> unsignedDecimalPercent ''-5%''"
    using b getWidthPercent_total_nonnegative [of "Some ''-5%''"] by auto
  from a b c d e f show ?thesis by simp
qed

text \<open>
  C10 as stated fails: for a width of 1 followed by 309 zeros, in percent, getWidthPercent
  returns Infinity, which is not a finite number.
\<close>

theorem getWidthPercent_infinite_counterexample:
  "getWidthPercent (Some hugeWidth) = Some Infinity"
proof -
  let ?ds = "CHR ''1'' # replicate 309 CHR ''0''"
  have d: "?ds \<noteq> []" "\<forall>c \<in> set ?ds. isDigit c" by (auto simp: isDigit_def)
  have m: "widthMatch hugeWidth = Some (?ds, [])"
    using widthMatch_integer[OF d] by (simp add: hugeWidth_def)
  have "digitVal CHR ''1'' = 1" by (simp add: digitVal_def)
  then have "digitsVal ?ds = 10 ^ 309"
    unfolding digitsVal_def foldl_Cons digitsVal_zeros by simp
  moreover have "digitsVal [] = 0" by (simp add: digitsVal_def)
  ultimately have v: "decimalValue (?ds, []) = 10 ^ 309"
    by (simp add: decimalValue_def)
  have "roundToDouble (decimalValue (?ds, [])) = Infinity"
    unfolding v by (rule roundToDouble_overflow) simp
  moreover have "hugeWidth \<noteq> []" by (simp add: hugeWidth_def)
  ultimately show ?thesis using m by (simp add: getWidthPercent_def parseFloat_def)
qed

section \<open>Properties of the timer monitor\<close>


lemma checkTimer_alerted: "h \<in> alertedTimers s \<Longrightarrow> checkTimer w h s = (False, s)"
  by (simp add: checkTimer_def)

lemma checkTimer_trace_cases:
  "trace (snd (checkTimer w h s)) = trace s \<or>
   trace (snd (checkTimer w h s)) = trace s @ [MarkAlerted h] \<or>
   (\<exists>sig. trace (snd (checkTimer w h s)) = trace s @ [DuplicateSuppressed h sig]) \<or>
   (\<exists>c out sig. trace (snd (checkTimer w h s)) =
        trace s @ [MarkAlerted h, Notification h c out, SignatureRecorded sig])"
  by (simp add: checkTimer_def markAlerted_def recordSignature_def Let_def split: option.splits)

lemma checkTimer_alerted_mono: "alertedTimers s \<subseteq> alertedTimers (snd (checkTimer w h s))"
  by (auto simp: checkTimer_def markAlerted_def recordSignature_def Let_def split: option.splits)

lemma checkTimer_flags:
  "initializationComplete (snd (checkTimer w h s)) = initializationComplete s"
  "navigationProtectionActive (snd (checkTimer w h s)) = navigationProtectionActive s"
  by (auto simp: checkTimer_def markAlerted_def recordSignature_def Let_def split: option.splits)

lemma alertsFor_append [simp]: "alertsFor h (xs @ ys) = alertsFor h xs @ alertsFor h ys"
  by (simp add: alertsFor_def)

lemma alertsFor_simps [simp]:
  "alertsFor h [] = []"
  "alertsFor h (MarkAlerted x # es) = alertsFor h es"
  "alertsFor h (SignatureRecorded g # es) = alertsFor h es"
  "alertsFor h (DuplicateSuppressed x g # es) = alertsFor h es"
  "alertsFor h (NewAuctionAnnounced x # es) = alertsFor h es"
  "alertsFor h (Notification x c out # es) = (if x = h then Notification x c out # alertsFor h es else alertsFor h es)"
  by (simp_all add: alertsFor_def)

lemma checkTimer_other:
  assumes "h' \<noteq> h"
  shows "alertsFor h (trace (snd (checkTimer w h' s))) = alertsFor h (trace s)"
  using checkTimer_trace_cases[of w h' s] assms by auto

lemma checkTimer_keeps:
  assumes "h \<in> alertedTimers s"
  shows "alertsFor h (trace (snd (checkTimer w h' s))) = alertsFor h (trace s) \<and>
         h \<in> alertedTimers (snd (checkTimer w h' s))"
proof (cases "h' = h")
  case True
  with assms show ?thesis by (simp add: checkTimer_alerted)
next
  case False
  with assms checkTimer_other[of h' h w s] checkTimer_alerted_mono[of s w h'] show ?thesis by auto
qed


lemma keeps_refl: "h \<in> alertedTimers s \<Longrightarrow> keeps h s s"
  by (simp add: keeps_def)

lemma keeps_foldl:
  assumes step: "\<And>s x. h \<in> alertedTimers s \<Longrightarrow> keeps h s (f s x)"
    and "h \<in> alertedTimers s"
  shows "keeps h s (foldl f s xs)"
  using assms(2)
proof (induction xs arbitrary: s)
  case Nil
  then show ?case by (simp add: keeps_def)
next
  case (Cons x xs)
  from step[OF Cons.prems, of x] have a: "keeps h s (f s x)" .
  then have "h \<in> alertedTimers (f s x)" by (simp add: keeps_def)
  from Cons.IH[OF this] a show ?case by (simp add: keeps_def)
qed

lemma maybeAnnounce_keeps: "h \<in> alertedTimers s \<Longrightarrow> keeps h s (maybeAnnounceNewAuction w t s)"
  by (simp add: maybeAnnounceNewAuction_def keeps_def Let_def)

lemma maybeAnnounce_flags:
  "navigationProtectionActive (maybeAnnounceNewAuction w t s) = navigationProtectionActive s"
  "alertedTimers (maybeAnnounceNewAuction w t s) = alertedTimers s"
  by (simp_all add: maybeAnnounceNewAuction_def Let_def)

lemma trackTimer_keeps: "h \<in> alertedTimers s \<Longrightarrow> keeps h s (trackTimer w s t)"
  by (simp add: trackTimer_def maybeAnnounceNewAuction_def markAlerted_def keeps_def Let_def)

lemma pollTimer_keeps: "h \<in> alertedTimers s \<Longrightarrow> keeps h s (pollTimer w s t)"
  using checkTimer_keeps[of h s w t] by (simp add: pollTimer_def keeps_def)

lemma keeps_trans: "keeps h s s' \<Longrightarrow> keeps h s' s'' \<Longrightarrow> keeps h s s''"
  by (simp add: keeps_def)

lemma checkAllTimers_keeps:
  assumes "h \<in> alertedTimers s"
  shows "keeps h s (checkAllTimers w s)"
proof -
  let ?s1 = "foldl (trackTimer w) s (scanForTimers w)"
  have a: "keeps h s ?s1" by (rule keeps_foldl[OF trackTimer_keeps assms])
  then have b: "h \<in> alertedTimers ?s1" by (simp add: keeps_def)
  have "keeps h ?s1 (foldl (pollTimer w) ?s1 (allTimers ?s1))"
    by (rule keeps_foldl[where f = "pollTimer w"]) (auto intro: pollTimer_keeps b)
  with a show ?thesis by (simp add: checkAllTimers_def Let_def keeps_def)
qed

lemma markCompleted_keeps: "h \<in> alertedTimers s \<Longrightarrow> keeps h s (markCompleted w s t)"
  by (simp add: markCompleted_def markAlerted_def recordSignature_def keeps_def)

lemma initialize_keeps:
  assumes "h \<in> alertedTimers s"
  shows "keeps h s (initialize w s)"
proof -
  let ?s1 = "s\<lparr>navigationProtectionActive := True, allTimers := scanForTimers w\<rparr>"
  have "h \<in> alertedTimers ?s1" using assms by simp
  from keeps_foldl[OF markCompleted_keeps this]
  show ?thesis by (simp add: initialize_def Let_def keeps_def)
qed

lemma onVisible_keeps:
  assumes "h \<in> alertedTimers s"
  shows "keeps h s (onVisible w s)"
proof -
  let ?s1 = "s\<lparr>navigationProtectionActive := True\<rparr>"
  let ?f = "\<lambda>s1 t. if widthCompleted (getWidthPercent (styleWidth w t)) then markCompleted w s1 t else s1"
  have st: "\<And>s x. h \<in> alertedTimers s \<Longrightarrow> keeps h s (?f s x)"
    by (auto intro: markCompleted_keeps keeps_refl)
  have "h \<in> alertedTimers ?s1" using assms by simp
  from keeps_foldl[of h ?f, OF st this]
  show ?thesis by (simp add: onVisible_def keeps_def)
qed

lemma onMutation_keeps:
  assumes "h \<in> alertedTimers s"
  shows "keeps h s (onMutation w s)"
proof -
  let ?f = "\<lambda>s1 t. if t \<in> set (allTimers s1) then s1
                    else maybeAnnounceNewAuction w t (s1\<lparr>allTimers := allTimers s1 @ [t]\<rparr>)"
  have st: "\<And>s x. h \<in> alertedTimers s \<Longrightarrow> keeps h s (?f s x)"
    by (simp add: keeps_def maybeAnnounceNewAuction_def Let_def)
  from keeps_foldl[of h ?f, OF st assms]
  show ?thesis by (simp add: onMutation_def)
qed

lemma step_keeps: "h \<in> alertedTimers s \<Longrightarrow> keeps h s (step s cb)"
  by (cases cb)
     (simp_all add: initialize_keeps checkAllTimers_keeps onMutation_keeps onVisible_keeps, simp_all add: keeps_def)

lemma run_keeps: "h \<in> alertedTimers s \<Longrightarrow> keeps h s (run s cbs)"
  unfolding run_def by (rule keeps_foldl[OF step_keeps])

text \<open>
  C1.  Once an element is in alertedTimers, no later callback calls showNotification for
  it again and it stays in the set; and the check that calls showNotification for an element
  has added the element to alertedTimers before the call: the events of that check are the
  marking, the notification, the recording of the signature, in this order.
\<close>

theorem alerted_once:
  "(h \<in> alertedTimers s \<longrightarrow>
      alertsFor h (trace (run s cbs)) = alertsFor h (trace s) \<and> h \<in> alertedTimers (run s cbs)) \<and>
   (alertsFor h (trace (snd (checkTimer w h s))) \<noteq> alertsFor h (trace s) \<longrightarrow>
      h \<notin> alertedTimers s \<and> h \<in> alertedTimers (snd (checkTimer w h s)) \<and>
      (\<exists>c out sig. trace (snd (checkTimer w h s)) =
         trace s @ [MarkAlerted h, Notification h c out, SignatureRecorded sig]))"
proof -
  have a: "h \<in> alertedTimers s \<longrightarrow>
      alertsFor h (trace (run s cbs)) = alertsFor h (trace s) \<and> h \<in> alertedTimers (run s cbs)"
    using run_keeps[of h s cbs] by (simp add: keeps_def)
  have b: "h \<notin> alertedTimers s \<and> h \<in> alertedTimers (snd (checkTimer w h s)) \<and>
      (\<exists>c out sig. trace (snd (checkTimer w h s)) =
         trace s @ [MarkAlerted h, Notification h c out, SignatureRecorded sig])"
    if ne: "alertsFor h (trace (snd (checkTimer w h s))) \<noteq> alertsFor h (trace s)"
  proof -
    from ne have 1: "h \<notin> alertedTimers s" using checkTimer_alerted[of h s w] by auto
    from ne checkTimer_trace_cases[of w h s]
    have 2: "\<exists>c out sig. trace (snd (checkTimer w h s)) =
         trace s @ [MarkAlerted h, Notification h c out, SignatureRecorded sig]" by auto
    have 3: "h \<in> alertedTimers (snd (checkTimer w h s))"
      using ne
      by (auto simp: checkTimer_def markAlerted_def recordSignature_def Let_def split: option.splits if_splits)
    from 1 2 3 show ?thesis by blast
  qed
  from a b show ?thesis by blast
qed

theorem alerted_once_witness:
  "1 \<in> alertedTimers (snd (checkTimer talismanWorld 1 monitoringState)) \<and>
   alertsFor 1 (trace (run (snd (checkTimer talismanWorld 1 monitoringState))
      [Tick talismanWorld, BecomesVisible talismanWorld, ProtectionEnds, Tick talismanWorld])) =
   alertsFor 1 (trace (snd (checkTimer talismanWorld 1 monitoringState))) \<and>
   alertsFor 1 (trace (snd (checkTimer talismanWorld 1 monitoringState))) \<noteq> alertsFor 1 (trace monitoringState) \<and>
   (1::nat) \<notin> alertedTimers monitoringState \<and>
   (\<exists>c out sig. trace (snd (checkTimer talismanWorld 1 monitoringState)) =
       trace monitoringState @ [MarkAlerted 1, Notification 1 c out, SignatureRecorded sig])"
proof -
  have a: "1 \<in> alertedTimers (snd (checkTimer talismanWorld 1 monitoringState))"
    by code_simp
  have b: "alertsFor 1 (trace (snd (checkTimer talismanWorld 1 monitoringState))) \<noteq>
           alertsFor 1 (trace monitoringState)"
    by code_simp
  from a alerted_once [of 1 "snd (checkTimer talismanWorld 1 monitoringState)"
      "[Tick talismanWorld, BecomesVisible talismanWorld, ProtectionEnds, Tick talismanWorld]"]
  have c: "alertsFor 1 (trace (run (snd (checkTimer talismanWorld 1 monitoringState))
      [Tick talismanWorld, BecomesVisible talismanWorld, ProtectionEnds, Tick talismanWorld])) =
   alertsFor 1 (trace (snd (checkTimer talismanWorld 1 monitoringState)))"
    by blast
  from b alerted_once [of 1 monitoringState "[]" talismanWorld]
  have d: "(1::nat) \<notin> alertedTimers monitoringState \<and>
   (\<exists>c out sig. trace (snd (checkTimer talismanWorld 1 monitoringState)) =
       trace monitoringState @ [MarkAlerted 1, Notification 1 c out, SignatureRecorded sig])"
    by blast
  from a b c d show ?thesis by blast
qed



lemma checkTimer_no_duplicate_event:
  "DuplicateSuppressed h' sig \<notin> set (drop (length (trace s)) (trace (snd (checkTimer w h s))))"
  by (simp add: checkTimer_def markAlerted_def recordSignature_def Let_def split: option.splits)

lemma checkTimer_fresh:
  assumes "h \<notin> alertedTimers s" and "initializationComplete s" and "\<not> navigationProtectionActive s"
    and "widthCompleted (getWidthPercent (styleWidth w h))"
    and "extractContext w h = Some ctx" and "truthyStr (itemName ctx)"
  shows "checkTimer w h s =
     (let s2 = markAlerted h s;
          decision = shouldAlert (config w) (env w) (userCharacterNames s) ctx;
          s3 = s2\<lparr>userCharacterNames := snd decision\<rparr>
      in if fst decision then
           (True, recordSignature w (buildCompletionSignature (Some ctx))
                    (s3\<lparr>trace := trace s3 @ [Notification h (fst (showNotification (config w) (env w) ctx))
                                                  (snd (showNotification (config w) (env w) ctx))]\<rparr>))
         else (True, s3))"
proof -
  from assms(4) obtain v where v: "getWidthPercent (styleWidth w h) = Some v" "numLessEq v 0"
    by (auto simp: widthCompleted_def split: option.splits)
  from v have "\<not> numGreater v 1" by (auto simp: numLessEq_def numGreater_def split: jsNumber.splits)
  with assms v show ?thesis
    by (simp add: checkTimer_def Let_def markAlerted_def)
qed

text \<open>
  C2.  The duplicate rule of checkTimer needs a recent signature and an element that is
  already in alertedTimers.  No check ever ends in that branch; and for an element that was
  never alerted, with a completed width and a context with an item name, the check takes
  the alert decision whatever recentCompletedMap holds: when shouldAlert agrees, the
  notification is dispatched even though the same signature was recorded just before.
\<close>

theorem fresh_handle_not_suppressed:
  "(\<forall>h' sig. DuplicateSuppressed h' sig \<notin> set (drop (length (trace s)) (trace (snd (checkTimer w h s))))) \<and>
   (h \<notin> alertedTimers s \<and> initializationComplete s \<and> \<not> navigationProtectionActive s \<and>
    widthCompleted (getWidthPercent (styleWidth w h)) \<and>
    extractContext w h = Some ctx \<and> truthyStr (itemName ctx) \<longrightarrow>
      fst (checkTimer w h s) \<and> h \<in> alertedTimers (snd (checkTimer w h s)) \<and>
      (fst (shouldAlert (config w) (env w) (userCharacterNames s) ctx) \<longrightarrow>
         (\<exists>c out. trace (snd (checkTimer w h s)) =
            trace s @ [MarkAlerted h, Notification h c out,
                       SignatureRecorded (buildCompletionSignature (Some ctx))])))"
proof -
  have "fst (checkTimer w h s) \<and> h \<in> alertedTimers (snd (checkTimer w h s)) \<and>
      (fst (shouldAlert (config w) (env w) (userCharacterNames s) ctx) \<longrightarrow>
         (\<exists>c out. trace (snd (checkTimer w h s)) =
            trace s @ [MarkAlerted h, Notification h c out,
                       SignatureRecorded (buildCompletionSignature (Some ctx))]))"
    if "h \<notin> alertedTimers s" "initializationComplete s" "\<not> navigationProtectionActive s"
      "widthCompleted (getWidthPercent (styleWidth w h))"
      "extractContext w h = Some ctx" "truthyStr (itemName ctx)"
    using checkTimer_fresh[OF that]
    by (simp add: Let_def markAlerted_def recordSignature_def)
  with checkTimer_no_duplicate_event[of _ _ s w h] show ?thesis by blast
qed

theorem fresh_handle_not_suppressed_witness:
  "isRecentlyCompleted (recentCompletedMap recentState) (nowMs (env talismanWorld))
     (buildCompletionSignature (Some talismanContext)) \<and>
   (1::nat) \<notin> alertedTimers recentState \<and> initializationComplete recentState \<and>
   \<not> navigationProtectionActive recentState \<and>
   widthCompleted (getWidthPercent (styleWidth talismanWorld 1)) \<and>
   extractContext talismanWorld 1 = Some talismanContext \<and> truthyStr (itemName talismanContext) \<and>
   fst (shouldAlert (config talismanWorld) (env talismanWorld) (userCharacterNames recentState) talismanContext) \<and>
   (\<exists>c out. trace (snd (checkTimer talismanWorld 1 recentState)) =
      trace recentState @ [MarkAlerted 1, Notification 1 c out,
                           SignatureRecorded (buildCompletionSignature (Some talismanContext))])"
proof -
  have a: "isRecentlyCompleted (recentCompletedMap recentState) (nowMs (env talismanWorld))
     (buildCompletionSignature (Some talismanContext))"
    by code_simp
  have b: "(1::nat) \<notin> alertedTimers recentState \<and> initializationComplete recentState \<and>
   \<not> navigationProtectionActive recentState"
    by code_simp
  have c: "widthCompleted (getWidthPercent (styleWidth talismanWorld 1))"
    by code_simp
  have d: "extractContext talismanWorld 1 = Some talismanContext"
    by code_simp
  have e: "truthyStr (itemName talismanContext)"
    by code_simp
  have f: "fst (shouldAlert (config talismanWorld) (env talismanWorld) (userCharacterNames recentState) talismanContext)"
    by code_simp
  from b c d e f fresh_handle_not_suppressed [of recentState talismanWorld 1 talismanContext]
  have "\<exists>c out. trace (snd (checkTimer talismanWorld 1 recentState)) =
      trace recentState @ [MarkAlerted 1, Notification 1 c out,
                           SignatureRecorded (buildCompletionSignature (Some talismanContext))]"
    by blast
  with a b c d e f show ?thesis by blast
qed

text \<open>
  C3.  An element found at 0 percent while the protection window is active: initialize marks
  it and records its signature.  A polling tick that finds it marks it and records no
  signature.  The mutation observer that finds it does not mark it, and the first tick after
  the end of the window alerts for it.
\<close>

theorem protection_window_discovery:
  "navigationProtectionActive (run initialState [Initialize emptyWorld, MonitoringStarts]) \<and>
   trace (run initialState [Initialize talismanWorld]) =
     [MarkAlerted 1, SignatureRecorded ''yelinak's talisman|bob|150''] \<and>
   trace (run initialState [Initialize emptyWorld, MonitoringStarts, Tick talismanWorld]) =
     [MarkAlerted 1] \<and>
   recentCompletedMap (run initialState [Initialize emptyWorld, MonitoringStarts, Tick talismanWorld]) = [] \<and>
   1 \<notin> alertedTimers (run initialState [Initialize emptyWorld, MonitoringStarts, Mutation talismanWorld,
                                         Tick talismanWorld]) \<and>
   trace (run initialState [Initialize emptyWorld, MonitoringStarts, Mutation talismanWorld,
                            Tick talismanWorld, ProtectionEnds, Tick talismanWorld]) =
     [MarkAlerted 1,
      Notification 1 talismanContext
        [BrowserNotification, ConsoleNotification, FlashScreen, ChimeSound, SpeakNotification],
      SignatureRecorded ''yelinak's talisman|bob|150'']"
  by code_simp

section \<open>Properties of the alert policy\<close>


text \<open>
  C9, as amended.  Inside the quiet hours and with visuals enabled, shouldAlert returns true
  for every context that has a bid, unless smart bidding for a raider finds that the user
  is not bidding.  showNotification then starts no sound and no speech; it writes the
  console line, flashes the screen when FLASH_SCREEN is set, and raises the browser
  notification when that is enabled and permitted.
\<close>

theorem quiet_hours_visual_only:
  assumes "\<not> noBid ctx" and "isQuietHours st b" and "\<not> DISABLE_VISUALS st"
    and "\<not> (SMART_BIDDING st \<and> SOUND_PROFILE st = ''raider'') \<or> fst (isUserBidding b names ctx)"
  shows "fst (shouldAlert st b names ctx) \<and>
         playChime st b = [] \<and>
         ChimeSound \<notin> set (snd (showNotification st b ctx)) \<and>
         SpeakNotification \<notin> set (snd (showNotification st b ctx)) \<and>
         ConsoleNotification \<in> set (snd (showNotification st b ctx)) \<and>
         (FLASH_SCREEN st \<longrightarrow> FlashScreen \<in> set (snd (showNotification st b ctx))) \<and>
         (BROWSER_NOTIFICATIONS st \<and> notificationPermission b = Granted \<longrightarrow>
            BrowserNotification \<in> set (snd (showNotification st b ctx)))"
proof -
  from assms have "fst (shouldAlert st b names ctx)"
    by (auto simp: shouldAlert_def Let_def)
  moreover from assms(2) have "playChime st b = []"
    by (simp add: playChime_def)
  moreover from assms(2,3) have "snd (showNotification st b ctx) =
      (if BROWSER_NOTIFICATIONS st then
         (case notificationPermission b of Granted \<Rightarrow> [BrowserNotification]
          | Default \<Rightarrow> [PermissionRequest] | Denied \<Rightarrow> [])
       else []) @ [ConsoleNotification] @ (if FLASH_SCREEN st then [FlashScreen] else [])"
    by (simp add: showNotification_def Let_def)
  ultimately show ?thesis
    by (auto split: permission.splits)
qed

theorem quiet_hours_visual_only_witness:
  "\<not> noBid talismanContext \<and> isQuietHours quietConfig nightBrowser \<and> \<not> DISABLE_VISUALS quietConfig \<and>
   \<not> (SMART_BIDDING quietConfig \<and> SOUND_PROFILE quietConfig = ''raider'') \<and>
   truthyStr (winner talismanContext) \<and>
   fst (shouldAlert quietConfig nightBrowser [] talismanContext) \<and>
   snd (showNotification quietConfig nightBrowser talismanContext) =
     [BrowserNotification, ConsoleNotification, FlashScreen]"
proof -
  have a: "\<not> noBid talismanContext" by code_simp
  have b: "isQuietHours quietConfig nightBrowser" by code_simp
  have c: "\<not> DISABLE_VISUALS quietConfig" by code_simp
  have d: "\<not> (SMART_BIDDING quietConfig \<and> SOUND_PROFILE quietConfig = ''raider'')" by code_simp
  have e: "truthyStr (winner talismanContext)" by code_simp
  have f: "snd (showNotification quietConfig nightBrowser talismanContext) =
     [BrowserNotification, ConsoleNotification, FlashScreen]" by code_simp
  from a b c d quiet_hours_visual_only [of talismanContext quietConfig nightBrowser "[]"]
  have "fst (shouldAlert quietConfig nightBrowser [] talismanContext)" by blast
  with a b c d e f show ?thesis by blast
qed

text \<open>
  C9 as stated fails: a clear single winner inside the quiet hours with visuals enabled, and
  shouldAlert returns false, because smart bidding for a raider comes first and the winner
  is not a character of the user.
\<close>

theorem quiet_hours_alert_counterexample:
  "truthyStr (winner talismanContext) \<and> \<not> isRollOff talismanContext \<and>
   \<not> multipleWinners talismanContext \<and> \<not> noBid talismanContext \<and>
   isQuietHours raiderQuietConfig nightBrowser \<and> \<not> DISABLE_VISUALS raiderQuietConfig \<and>
   \<not> fst (shouldAlert raiderQuietConfig nightBrowser [] talismanContext)"
  by code_simp

section \<open>Properties of the item-name cleaning\<close>


lemma cleanBidPrefix_no_digit:
  assumes "s = [] \<or> \<not> isDigit (hd s)"
  shows "cleanBidPrefix s = s"
proof -
  from assms have "takeWhile isDigit s = []"
    by (cases s) auto
  then show ?thesis
    by (simp add: cleanBidPrefix_def bidPrefixMatch_def noSpaceMatch_def)
qed

lemma dropWhile_fixed: "xs = [] \<or> \<not> P (hd xs) \<Longrightarrow> dropWhile P xs = xs"
  by (cases xs) auto

lemma dropWhile_head: "dropWhile P xs = [] \<or> \<not> P (hd (dropWhile P xs))"
  using hd_dropWhile[of P xs] by blast

lemma trim_trim: "trim (trim s) = trim s"
proof -
  define a where "a = dropWhile isSpace s"
  define b where "b = dropWhile isSpace (rev a)"
  have t: "trim s = rev b" by (simp add: trim_def a_def b_def)
  have b1: "dropWhile isSpace b = b"
    unfolding b_def by (rule dropWhile_fixed) (rule dropWhile_head)
  have "dropWhile isSpace (rev b) = rev b"
  proof (cases "b = []")
    case True
    then show ?thesis by simp
  next
    case False
    have "rev a = takeWhile isSpace (rev a) @ b" by (simp add: b_def)
    then have "a = rev b @ rev (takeWhile isSpace (rev a))"
      by (metis rev_append rev_rev_ident)
    with False have "hd (rev b) = hd a" by (metis hd_append2 rev_is_Nil_conv)
    moreover have "a \<noteq> []" using False b_def by auto
    then have "\<not> isSpace (hd a)" using dropWhile_head[of isSpace s] a_def by auto
    ultimately show ?thesis by (intro dropWhile_fixed) simp
  qed
  then show ?thesis using t b1 by (simp add: trim_def)
qed

lemma clean_trimmed:
  assumes "trim s = s"
  shows "trim (cleanBidPrefix s) = cleanBidPrefix s"
  using assms by (auto simp: cleanBidPrefix_def trim_trim split: option.splits)

text \<open>
  C8, as amended.  The cleaning leaves every item name unchanged that is empty or does not
  begin with a digit.  So cleaning the output of the cleaning returns it unchanged whenever
  that output does not begin with a digit; this holds for the cleaning of the extractors and
  for the final cleanup of showNotification.
\<close>

theorem cleaning_fixed_unless_digit:
  "((cleanBidPrefix s = [] \<or> \<not> isDigit (hd (cleanBidPrefix s))) \<longrightarrow>
      cleanBidPrefix (cleanBidPrefix s) = cleanBidPrefix s) \<and>
   ((notificationItemName s = [] \<or> \<not> isDigit (hd (notificationItemName s))) \<longrightarrow>
      notificationItemName (notificationItemName s) = notificationItemName s)"
proof -
  have "trim (notificationItemName s) = notificationItemName s"
    unfolding notificationItemName_def by (rule clean_trimmed) (rule trim_trim)
  then show ?thesis
    by (simp add: cleanBidPrefix_no_digit notificationItemName_def)
qed

theorem cleaning_fixed_unless_digit_witness:
  "cleanBidPrefix ''150 Yelinak's Talisman'' = ''Yelinak's Talisman'' \<and>
   \<not> isDigit (hd (cleanBidPrefix ''150 Yelinak's Talisman'')) \<and>
   cleanBidPrefix (cleanBidPrefix ''150 Yelinak's Talisman'') = cleanBidPrefix ''150 Yelinak's Talisman'' \<and>
   \<not> isDigit (hd (notificationItemName ''150 Yelinak's Talisman'')) \<and>
   notificationItemName (notificationItemName ''150 Yelinak's Talisman'') =
     notificationItemName ''150 Yelinak's Talisman''"
proof -
  have a: "cleanBidPrefix ''150 Yelinak's Talisman'' = ''Yelinak's Talisman''" by code_simp
  have b: "\<not> isDigit (hd (cleanBidPrefix ''150 Yelinak's Talisman''))" by code_simp
  have c: "\<not> isDigit (hd (notificationItemName ''150 Yelinak's Talisman''))" by code_simp
  from b c cleaning_fixed_unless_digit [of "''150 Yelinak's Talisman''"] a show ?thesis by blast
qed

text \<open>
  C8 as stated fails.  The cleaning removes one leading number each time it runs: the item
  text \<open>10 20 Dagger\<close> is cleaned to \<open>20 Dagger\<close>, and cleaning that output gives
  \<open>Dagger\<close>.
\<close>

theorem cleaning_idempotent_counterexample:
  "cleanBidPrefix ''10 20 Dagger'' = ''20 Dagger'' \<and>
   cleanBidPrefix (cleanBidPrefix ''10 20 Dagger'') = ''Dagger'' \<and>
   cleanBidPrefix (cleanBidPrefix ''10 20 Dagger'') \<noteq> cleanBidPrefix ''10 20 Dagger''"
  by code_simp



lemma sep_not_digit: "isSepChar c \<Longrightarrow> \<not> isDigit c"
  by (auto simp: isSepChar_def isSpace_def isDigit_def)

lemma bidPrefixMatch_token:
  assumes "ds \<noteq> []" "\<forall>c \<in> set ds. isDigit c" "seps \<noteq> []" "\<forall>c \<in> set seps. isSepChar c"
    "rest \<noteq> []" "\<not> isSepChar (hd rest)" "\<forall>c \<in> set rest. \<not> isLineTerminator c"
  shows "bidPrefixMatch (ds @ seps @ rest) = Some rest"
proof -
  obtain c cs where seps: "seps = c # cs" using assms(3) by (cases seps) auto
  have hs: "\<not> isDigit (hd seps)" using assms(4) seps sep_not_digit[of c] by simp
  obtain r rs where rest: "rest = r # rs" using assms(5) by (cases rest) auto
  have nd: "\<not> isDigit c" using hs seps by simp
  have ns: "\<not> isSepChar r" using assms(6) rest by simp
  have a: "takeWhile isDigit (ds @ seps @ rest) = ds" "dropWhile isDigit (ds @ seps @ rest) = seps @ rest"
    using assms(2) nd seps by (simp_all add: takeWhile_append2 dropWhile_append2)
  have b: "takeWhile isSepChar (seps @ rest) = seps" "dropWhile isSepChar (seps @ rest) = rest"
    using assms(4) ns rest by (simp_all add: takeWhile_append2 dropWhile_append2)
  show ?thesis
    using a b assms(1,3,5,7) by (simp add: bidPrefixMatch_def Let_def)
qed

lemma trim_head:
  assumes "s \<noteq> []" "\<not> isSpace (hd s)"
  shows "trim s \<noteq> [] \<and> hd (trim s) = hd s"
proof -
  obtain c cs where s: "s = c # cs" using assms(1) by (cases s) auto
  have c: "\<not> isSpace c" using assms(2) s by simp
  have d: "dropWhile isSpace s = s" using s c by simp
  have "rev s = rev cs @ [c]" using s by simp
  then have "dropWhile isSpace (rev s) = dropWhile isSpace (rev cs) @ [c]"
    using c by (simp add: dropWhile_append3)
  then have "trim s = c # rev (dropWhile isSpace (rev cs))"
    using d by (simp add: trim_def)
  then show ?thesis using s by simp
qed

lemma rowItemText_trimmed: "trim (rowItemText cells) = rowItemText cells"
  by (simp add: rowItemText_def Let_def trim_trim split: option.splits)

lemma itemDivText_trimmed:
  assumes "itemDivText divs cur = Some raw" "\<forall>c. cur = Some c \<longrightarrow> trim c = c"
  shows "trim raw = raw"
  using assms
proof (induction divs arbitrary: cur)
  case Nil
  then show ?case by simp
next
  case (Cons d divs)
  show ?case
  proof (cases "lazyPrefix (numberTail CHR ''x'') [] (trim d)")
    case (Some g)
    with Cons.prems(1) show ?thesis by (auto simp: Let_def trim_trim)
  next
    case None
    show ?thesis
    proof (cases "trim d \<noteq> [] \<and> CHR ''-'' \<notin> set (trim d) \<and> CHR ''x'' \<notin> set (trim d) \<and> length (trim d) > 3")
      case True
      with None Cons.prems(1) have "itemDivText divs (Some (trim d)) = Some raw" by (simp add: Let_def)
      then show ?thesis by (rule Cons.IH) (simp add: trim_trim)
    next
      case False
      with None Cons.prems(1) have "itemDivText divs cur = Some raw" by (auto simp: Let_def)
      then show ?thesis using Cons.prems(2) by (rule Cons.IH)
    qed
  qed
qed

text \<open>The loop of the source cleans the text that \<open>itemDivText\<close> selects.\<close>

lemma scanItemDivs_text:
  "fst (scanItemDivs divs (map_option cleanBidPrefix cur, q)) =
     map_option cleanBidPrefix (itemDivText divs cur)"
proof (induction divs arbitrary: cur q)
  case Nil
  then show ?case by simp
next
  case (Cons d divs)
  show ?case
  proof (cases "lazyPrefix (numberTail CHR ''x'') [] (trim d)")
    case (Some g)
    then show ?thesis by (simp add: Let_def)
  next
    case None
    show ?thesis
    proof (cases "trim d \<noteq> [] \<and> CHR ''-'' \<notin> set (trim d) \<and> CHR ''x'' \<notin> set (trim d) \<and> length (trim d) > 3")
      case True
      with None Cons.IH[of "Some (trim d)" "Some 1"] show ?thesis by (simp add: Let_def)
    next
      case False
      with None Cons.IH[of cur q] show ?thesis by (auto simp: Let_def)
    qed
  qed
qed

text \<open>
  In both shapes the final itemName is the item text after the cleaning and after the
  sanitising of the winner prefix, and the item text is trimmed.
\<close>

lemma context_itemName:
  assumes "(extractTableContext d = Some ctx \<and> (\<exists>cells. timerRow d = Some cells \<and> rowItemText cells = raw)) \<or>
           (extractTimerContext t = Some ctx \<and> itemDivText (divTexts t) None = Some raw)"
  shows "itemName ctx = stripWinnerPrefix (Some (cleanBidPrefix raw)) (winner ctx) \<and> trim raw = raw"
  using assms
proof
  assume "extractTableContext d = Some ctx \<and> (\<exists>cells. timerRow d = Some cells \<and> rowItemText cells = raw)"
  then obtain cells where c: "extractTableContext d = Some ctx" "timerRow d = Some cells"
    "rowItemText cells = raw" by blast
  then have "ctx = tableContext cells (parentRows d)"
    by (auto simp: extractTableContext_def split: if_splits)
  then have "itemName ctx = stripWinnerPrefix (Some (cleanBidPrefix raw)) (winner ctx)"
    using c(3) by (simp add: tableContext_def Let_def)
  then show ?thesis using rowItemText_trimmed[of cells] c(3) by simp
next
  assume a: "extractTimerContext t = Some ctx \<and> itemDivText (divTexts t) None = Some raw"
  then obtain st where "ctx = timerContext t st"
    by (auto simp: extractTimerContext_def split: if_splits option.splits)
  then have "itemName ctx = stripWinnerPrefix (fst (scanItemDivs (divTexts t) (None, None))) (winner ctx)"
    by (simp add: timerContext_def Let_def)
  moreover have "fst (scanItemDivs (divTexts t) (None, None)) = Some (cleanBidPrefix raw)"
    using scanItemDivs_text[of "divTexts t" None None] a by simp
  moreover have "trim raw = raw"
    using a by (intro itemDivText_trimmed[of "divTexts t" None]) auto
  ultimately show ?thesis by simp
qed

text \<open>
  The cleaning of an optional numeric token: digits and separators, both present or both
  absent, in front of a rest that begins with neither.
\<close>

lemma cleanBidPrefix_token:
  assumes "trim (ds @ seps @ rest) = ds @ seps @ rest"
    and "\<forall>c \<in> set ds. isDigit c" and "\<forall>c \<in> set seps. isSepChar c" and "ds = [] \<longleftrightarrow> seps = []"
    and "rest \<noteq> []" and "\<not> isDigit (hd rest)" and "\<not> isSepChar (hd rest)"
    and "ds \<noteq> [] \<longrightarrow> (\<forall>c \<in> set rest. \<not> isLineTerminator c)"
  shows "cleanBidPrefix (ds @ seps @ rest) = trim rest \<and> trim rest \<noteq> [] \<and>
         \<not> startsWithNumericToken (trim rest)"
proof -
  have "\<not> isSpace (hd rest)" using assms(7) by (simp add: isSepChar_def)
  from trim_head[OF assms(5) this] have h: "trim rest \<noteq> []" "hd (trim rest) = hd rest" by auto
  then have "takeWhile isDigit (trim rest) = []"
    using assms(6) by (cases "trim rest") auto
  then have n: "\<not> startsWithNumericToken (trim rest)"
    by (simp add: startsWithNumericToken_def)
  have "cleanBidPrefix (ds @ seps @ rest) = trim rest"
  proof (cases "ds = []")
    case True
    with assms(4) have e: "ds @ seps @ rest = rest" by simp
    then have "cleanBidPrefix (ds @ seps @ rest) = rest"
      using assms(6) by (simp add: cleanBidPrefix_no_digit)
    then show ?thesis using assms(1) e by simp
  next
    case False
    with assms(4) have "seps \<noteq> []" by simp
    with False assms have "bidPrefixMatch (ds @ seps @ rest) = Some rest"
      by (intro bidPrefixMatch_token) auto
    then show ?thesis by (simp add: cleanBidPrefix_def)
  qed
  with h n show ?thesis by simp
qed

lemma stripWinnerPrefix_absent:
  assumes "\<not> beginsWithWinner win c"
  shows "stripWinnerPrefix (Some c) win = Some c"
  using assms by (auto simp: stripWinnerPrefix_def beginsWithWinner_def Let_def split: option.splits)

lemma lowerChar_dash: "lowerChar CHR ''-'' = CHR ''-''" "lowerChar CHR '' '' = CHR '' ''"
  by (simp_all add: lowerChar_def)

lemma stripWinnerPrefix_present:
  assumes "trim c = w' @ '' -'' @ tail" and "toLowerCase w' = toLowerCase (trim wn)"
    and "CHR ''-'' \<notin> set w'" and "wn \<noteq> []" and "c \<noteq> []"
  shows "stripWinnerPrefix (Some c) (Some wn) = Some (trim tail)"
proof -
  have "toLowerCase (trim c) = (toLowerCase (trim wn) @ '' -'') @ toLowerCase tail"
    using assms(1,2) by (simp add: toLowerCase_def lowerChar_dash)
  then have p: "prefix (toLowerCase (trim wn) @ '' -'') (toLowerCase (trim c))"
    by (metis prefixI)
  have "dropWhile (\<lambda>x. x \<noteq> CHR ''-'') (w' @ '' -'' @ tail) =
               dropWhile (\<lambda>x. x \<noteq> CHR ''-'') ('' -'' @ tail)"
    using assms(3) by (intro dropWhile_append2) auto
  then have "dropWhile (\<lambda>x. x \<noteq> CHR ''-'') (w' @ '' -'' @ tail) = CHR ''-'' # tail"
    by simp
  then have "afterFirstDash (trim c) = tail"
    using assms(1) by (simp add: afterFirstDash_def)
  with p assms(4,5) show ?thesis by (simp add: stripWinnerPrefix_def Let_def)
qed

text \<open>
  C7, as amended.  For a context of either extractor, let the item text (in the table shape
  the text of the item cell without its quantity suffix, in the tab shape the text that the
  loop over the \<open>div\<close> elements selects) be an optional numeric token, that is, a run of
  digits and a run of white space and dashes, in front of a rest that begins with neither a
  digit nor a separator and, behind a token, stays on one line.  Then the cleaning leaves the
  trimmed rest, which does not begin with a numeric token.  When the trimmed rest does not
  begin, in any letter case, with the winner's name, a space and a dash, it is the final
  itemName; when it is the winner's name without a dash inside, a space, a dash and a tail,
  the final itemName is the trimmed tail.
\<close>

theorem leading_token_removed:
  assumes "(extractTableContext d = Some ctx \<and> (\<exists>cells. timerRow d = Some cells \<and> rowItemText cells = raw)) \<or>
           (extractTimerContext t = Some ctx \<and> itemDivText (divTexts t) None = Some raw)"
    and "raw = ds @ seps @ rest"
    and "\<forall>c \<in> set ds. isDigit c" and "\<forall>c \<in> set seps. isSepChar c" and "ds = [] \<longleftrightarrow> seps = []"
    and "rest \<noteq> []" and "\<not> isDigit (hd rest)" and "\<not> isSepChar (hd rest)"
    and "ds \<noteq> [] \<longrightarrow> (\<forall>c \<in> set rest. \<not> isLineTerminator c)"
  shows "\<not> startsWithNumericToken (trim rest) \<and>
         (\<not> beginsWithWinner (winner ctx) (trim rest) \<longrightarrow> itemName ctx = Some (trim rest)) \<and>
         (\<forall>wn w' tail. winner ctx = Some wn \<and> wn \<noteq> [] \<and> trim rest = w' @ '' -'' @ tail \<and>
                        toLowerCase w' = toLowerCase (trim wn) \<and> CHR ''-'' \<notin> set w' \<longrightarrow>
                          itemName ctx = Some (trim tail))"
proof -
  from context_itemName[OF assms(1)]
  have i: "itemName ctx = stripWinnerPrefix (Some (cleanBidPrefix raw)) (winner ctx)"
    and t: "trim raw = raw" by auto
  from t have "trim (ds @ seps @ rest) = ds @ seps @ rest" using assms(2) by simp
  from cleanBidPrefix_token[OF this assms(3-9)] assms(2)
  have c: "cleanBidPrefix raw = trim rest" "trim rest \<noteq> []"
    and n: "\<not> startsWithNumericToken (trim rest)" by auto
  have a: "itemName ctx = Some (trim rest)" if "\<not> beginsWithWinner (winner ctx) (trim rest)"
    using i c stripWinnerPrefix_absent[OF that] by simp
  have b: "itemName ctx = Some (trim tail)"
    if "winner ctx = Some wn" "wn \<noteq> []" "trim rest = w' @ '' -'' @ tail"
      "toLowerCase w' = toLowerCase (trim wn)" "CHR ''-'' \<notin> set w'" for wn w' tail
  proof -
    have "trim (trim rest) = w' @ '' -'' @ tail" unfolding trim_trim using that(3) .
    from stripWinnerPrefix_present[OF this that(4,5,2) c(2)] i c(1) that(1)
    show ?thesis by simp
  qed
  from n a b show ?thesis by blast
qed

theorem leading_token_removed_witness:
  "extractTableContext talismanDom = Some talismanContext \<and>
   rowItemText (auctionRow ''Bob'' ''150 Yelinak's Talisman x 1'' ''150'') =
     ''150'' @ '' '' @ ''Yelinak's Talisman'' \<and>
   itemName talismanContext = Some ''Yelinak's Talisman'' \<and> quantity talismanContext = Some 1 \<and>
   extractTimerContext talismanTab = Some talismanTabContext \<and>
   itemDivText (divTexts talismanTab) None = Some (''150'' @ '' '' @ ''Yelinak's Talisman'') \<and>
   itemName talismanTabContext = Some ''Yelinak's Talisman'' \<and> quantity talismanTabContext = Some 1 \<and>
   \<not> startsWithNumericToken ''Yelinak's Talisman'' \<and>
   extractTableContext prefixedDom = Some prefixedContext \<and>
   rowItemText (auctionRow ''Bob'' ''Bob - Sword x 1'' ''40'') = ''Bob'' @ '' -'' @ '' Sword'' \<and>
   winner prefixedContext = Some ''Bob'' \<and>
   itemName prefixedContext = Some ''Sword''"
proof -
  let ?cells = "auctionRow ''Bob'' ''150 Yelinak's Talisman x 1'' ''150''"
  let ?rest = "''Yelinak's Talisman''"
  have a1: "extractTableContext talismanDom = Some talismanContext" by code_simp
  have a2: "timerRow talismanDom = Some ?cells" by code_simp
  have a3: "rowItemText ?cells = ''150'' @ '' '' @ ?rest" by code_simp
  have d: "\<forall>c \<in> set ''150''. isDigit c" "\<forall>c \<in> set '' ''. isSepChar c" "''150'' = [] \<longleftrightarrow> '' '' = []"
    by code_simp+
  have e: "?rest \<noteq> []" "\<not> isDigit (hd ?rest)" "\<not> isSepChar (hd ?rest)"
    "''150'' \<noteq> [] \<longrightarrow> (\<forall>c \<in> set ?rest. \<not> isLineTerminator c)" by code_simp+
  have g: "trim ?rest = ?rest" by code_simp
  have a4: "\<not> beginsWithWinner (winner talismanContext) (trim ?rest)" by code_simp
  have a5: "quantity talismanContext = Some 1" by code_simp
  have s1: "(extractTableContext talismanDom = Some talismanContext \<and>
             (\<exists>cells. timerRow talismanDom = Some cells \<and> rowItemText cells = ''150'' @ '' '' @ ?rest)) \<or>
            (extractTimerContext noTab = Some talismanContext \<and>
             itemDivText (divTexts noTab) None = Some (''150'' @ '' '' @ ?rest))"
    using a1 a2 a3 by blast
  from leading_token_removed [OF s1 refl d e] a4 g
  have a6: "itemName talismanContext = Some ?rest" "\<not> startsWithNumericToken ?rest" by auto
  have b1: "extractTimerContext talismanTab = Some talismanTabContext" by code_simp
  have b2: "itemDivText (divTexts talismanTab) None = Some (''150'' @ '' '' @ ?rest)" by code_simp
  have b4: "\<not> beginsWithWinner (winner talismanTabContext) (trim ?rest)" by code_simp
  have b5: "quantity talismanTabContext = Some 1" by code_simp
  have s2: "(extractTableContext talismanDom = Some talismanTabContext \<and>
             (\<exists>cells. timerRow talismanDom = Some cells \<and> rowItemText cells = ''150'' @ '' '' @ ?rest)) \<or>
            (extractTimerContext talismanTab = Some talismanTabContext \<and>
             itemDivText (divTexts talismanTab) None = Some (''150'' @ '' '' @ ?rest))"
    using b1 b2 by blast
  from leading_token_removed [OF s2 refl d e] b4 g
  have b6: "itemName talismanTabContext = Some ?rest" by auto
  let ?pcells = "auctionRow ''Bob'' ''Bob - Sword x 1'' ''40''"
  let ?prest = "''Bob'' @ '' -'' @ '' Sword''"
  have c1: "extractTableContext prefixedDom = Some prefixedContext" by code_simp
  have c2: "timerRow prefixedDom = Some ?pcells" by code_simp
  have c3: "rowItemText ?pcells = ?prest" by code_simp
  have c4: "winner prefixedContext = Some ''Bob''" "''Bob'' \<noteq> []" "trim ?prest = ''Bob'' @ '' -'' @ '' Sword''"
    "toLowerCase ''Bob'' = toLowerCase (trim ''Bob'')" "CHR ''-'' \<notin> set ''Bob''"
    "trim '' Sword'' = ''Sword''" by code_simp+
  have pd: "\<forall>c \<in> set []. isDigit c" "\<forall>c \<in> set []. isSepChar c" "([]::string) = [] \<longleftrightarrow> ([]::string) = []"
    by simp_all
  have pe: "?prest \<noteq> []" "\<not> isDigit (hd ?prest)" "\<not> isSepChar (hd ?prest)"
    "([]::string) \<noteq> [] \<longrightarrow> (\<forall>c \<in> set ?prest. \<not> isLineTerminator c)" by code_simp+
  have s3: "(extractTableContext prefixedDom = Some prefixedContext \<and>
             (\<exists>cells. timerRow prefixedDom = Some cells \<and> rowItemText cells = [] @ [] @ ?prest)) \<or>
            (extractTimerContext noTab = Some prefixedContext \<and>
             itemDivText (divTexts noTab) None = Some ([] @ [] @ ?prest))"
    using c1 c2 c3 by auto
  from leading_token_removed [OF s3 refl pd pe] c4
  have c5: "itemName prefixedContext = Some ''Sword''" by metis
  from a1 a3 a5 a6 b1 b2 b5 b6 c1 c3 c4(1) c5 show ?thesis by blast
qed

text \<open>
  C7 as stated fails in both halves: the item text \<open>10 20 Dagger x 1\<close> gives the final
  itemName \<open>20 Dagger\<close>, which begins with a numeric token followed by white space; and
  for the winner Bob the item text \<open>Bob- Sword x 1\<close> gives the final itemName
  \<open>Bob- Sword\<close>, which begins with the winner's name followed by a dash.
\<close>

theorem leading_token_counterexample:
  "map_option itemName (extractTableContext daggerDom) = Some (Some ''20 Dagger'') \<and>
   startsWithNumericToken ''20 Dagger'' \<and>
   map_option winner (extractTableContext dashDom) = Some (Some ''Bob'') \<and>
   map_option itemName (extractTableContext dashDom) = Some (Some ''Bob- Sword'') \<and>
   startsWithWinnerDash ''Bob'' ''Bob- Sword''"
  by code_simp

section \<open>Properties of extractWinnersFromTable\<close>


lemma foldl_map_filter:
  "foldl (\<lambda>m x. case f x of None \<Rightarrow> m | Some y \<Rightarrow> g m y) a xs = foldl g a (List.map_filter f xs)"
  by (induction xs arbitrary: a) (auto simp: List.map_filter_simps split: option.splits)

lemma scanRows_fold:
  "scanRows defaultBid table = foldl recordBid [] (List.map_filter (scanRow defaultBid) table)"
  unfolding scanRows_def by (rule foldl_map_filter)

lemma scanRow_truthy:
  assumes "positiveBid defaultBid" "scanRow defaultBid row = Some nb"
  shows "truthy (snd nb)"
proof -
  from assms(1) have "truthy defaultBid"
    by (auto simp: positiveBid_def truthy_def split: option.splits)
  with assms(2) show ?thesis
    by (auto simp: scanRow_def Let_def split: if_splits prod.splits option.splits)
qed

lemma observed_truthy:
  assumes "positiveBid defaultBid"
  shows "\<forall>nb \<in> set (List.map_filter (scanRow defaultBid) table). truthy (snd nb)"
  using scanRow_truthy[OF assms] by (auto simp: List.map_filter_def)

lemma bidsOf_snoc:
  "bidsOf (obs @ [nb]) name =
     bidsOf obs name @ (if fst nb = name then (case snd nb of None \<Rightarrow> [] | Some b \<Rightarrow> [b]) else [])"
  by (auto simp: bidsOf_def List.map_filter_def split: option.splits)

lemma Max_snoc:
  fixes b :: int
  shows "Max (set (bs @ [b])) = (if bs = [] then b else max (Max (set bs)) b)"
proof (cases "bs = []")
  case True
  then show ?thesis by simp
next
  case False
  then have "Max (insert b (set bs)) = max b (Max (set bs))" by (intro Max_insert) auto
  with False show ?thesis by (simp add: max.commute)
qed

lemma recordBid_step:
  assumes good: "holdsHighest m obs" and tr: "truthy (snd nb)" and all: "\<forall>x \<in> set obs. truthy (snd x)"
  shows "holdsHighest (recordBid m nb) (obs @ [nb])"
proof -
  obtain name b where nb: "nb = (name, Some b)" and b0: "b \<noteq> 0"
    using tr by (cases nb) (auto simp: truthy_def split: option.splits)
  from good have dist: "distinct (map fst m)"
    and look: "\<And>k. map_of m k =
        (if bidsOf obs k = [] then None
         else Some \<lparr>ewinner = k, ebid = Some (Max (set (bidsOf obs k)))\<rparr>)"
    by (auto simp: holdsHighest_def)
  have nz: "Max (set (bidsOf obs name)) \<noteq> 0" if "bidsOf obs name \<noteq> []"
  proof -
    have "Max (set (bidsOf obs name)) \<in> set (bidsOf obs name)"
      using that by (intro Max_in) auto
    then obtain x where "x \<in> set obs" "snd x = Some (Max (set (bidsOf obs name)))"
      by (auto simp: bidsOf_def List.map_filter_def split: if_splits)
    with all show ?thesis by (auto simp: truthy_def)
  qed
  let ?new = "\<lparr>ewinner = name, ebid = Some (Max (set (bidsOf obs name @ [b])))\<rparr>"
  have key: "map_of (recordBid m nb) = (map_of m)(name \<mapsto> ?new) \<and> distinct (map fst (recordBid m nb))"
  proof (cases "bidsOf obs name = []")
    case True
    then have "recordBid m nb = AList.update name \<lparr>ewinner = name, ebid = Some b\<rparr> m"
      using look[of name] nb by (simp add: recordBid_def Let_def)
    with True dist show ?thesis by (simp add: distinct_update update_conv')
  next
    case False
    let ?old = "Max (set (bidsOf obs name))"
    have ex: "map_of m name = Some \<lparr>ewinner = name, ebid = Some ?old\<rparr>"
      using look[of name] False by simp
    have mx: "Max (set (bidsOf obs name @ [b])) = max ?old b"
      using False by (simp add: Max_snoc)
    show ?thesis
    proof (cases "b > ?old")
      case True
      then have "recordBid m nb = AList.update name \<lparr>ewinner = name, ebid = Some b\<rparr> m"
        using ex nb b0 by (simp add: recordBid_def Let_def truthy_def)
      moreover from True have "max ?old b = b" by simp
      ultimately show ?thesis using dist mx by (simp add: distinct_update update_conv')
    next
      case le: False
      then have same: "recordBid m nb = m"
        using ex nb b0 nz[OF False] by (simp add: recordBid_def Let_def truthy_def)
      from le have "max ?old b = ?old" by simp
      with mx ex have "(map_of m)(name \<mapsto> ?new) = map_of m"
        by (simp add: map_upd_triv)
      with same dist show ?thesis by simp
    qed
  qed
  show ?thesis
    unfolding holdsHighest_def
  proof (intro conjI allI)
    show "distinct (map fst (recordBid m nb))" using key by simp
  next
    fix k
    show "map_of (recordBid m nb) k =
        (if bidsOf (obs @ [nb]) k = [] then None
         else Some \<lparr>ewinner = k, ebid = Some (Max (set (bidsOf (obs @ [nb]) k)))\<rparr>)"
    proof (cases "k = name")
      case True
      then show ?thesis using key nb by (simp add: bidsOf_snoc)
    next
      case False
      then show ?thesis using key nb look[of k] by (simp add: bidsOf_snoc)
    qed
  qed
qed

lemma foldl_recordBid:
  assumes "\<forall>x \<in> set obs. truthy (snd x)"
  shows "holdsHighest (foldl recordBid [] obs) obs"
  using assms
proof (induction obs rule: rev_induct)
  case Nil
  show ?case by (simp add: holdsHighest_def bidsOf_def List.map_filter_simps)
next
  case (snoc x xs)
  then show ?case by (simp add: recordBid_step)
qed

lemma scanRows_highest:
  assumes "positiveBid defaultBid"
  shows "holdsHighest (scanRows defaultBid table) (List.map_filter (scanRow defaultBid) table)"
  unfolding scanRows_fold by (rule foldl_recordBid) (rule observed_truthy[OF assms])

text \<open>
  C6, as amended.  extractWinnersFromTable is called with the bid amount of the auction as
  default bid, which is positive at both call sites; a scanned row without a readable bid
  counts with this default.  The result holds every name of the scanned rows once, with the
  highest of the bids that the rows, so completed, show for this name: a row whose bid is
  not higher than the recorded one leaves the entry as it is.
\<close>

theorem highest_bid_kept:
  assumes "positiveBid defaultBid"
  shows "distinct (map ewinner (extractWinnersFromTable table defaultBid)) \<and>
         (\<forall>e \<in> set (extractWinnersFromTable table defaultBid).
            observedBids defaultBid table (ewinner e) \<noteq> [] \<and>
            ebid e = Some (Max (set (observedBids defaultBid table (ewinner e))))) \<and>
         (\<forall>name. observedBids defaultBid table name \<noteq> [] \<longrightarrow>
            name \<in> ewinner ` set (extractWinnersFromTable table defaultBid))"
proof -
  let ?m = "scanRows defaultBid table"
  from scanRows_highest[OF assms, of table]
  have dist: "distinct (map fst ?m)"
    and look: "\<And>k. map_of ?m k =
        (if observedBids defaultBid table k = [] then None
         else Some \<lparr>ewinner = k, ebid = Some (Max (set (observedBids defaultBid table k)))\<rparr>)"
    by (auto simp: holdsHighest_def observedBids_def)
  have ent: "observedBids defaultBid table k \<noteq> [] \<and>
             e = \<lparr>ewinner = k, ebid = Some (Max (set (observedBids defaultBid table k)))\<rparr>"
    if "(k, e) \<in> set ?m" for k e
  proof -
    from that dist have "map_of ?m k = Some e" by simp
    with look[of k] show ?thesis by (auto split: if_splits)
  qed
  have nm: "ewinner e = k" if "(k, e) \<in> set ?m" for k e
  proof -
    from ent[OF that] have "e = \<lparr>ewinner = k, ebid = Some (Max (set (observedBids defaultBid table k)))\<rparr>"
      by blast
    then show ?thesis by (cases e) simp
  qed
  have names: "map ewinner (map snd ?m) = map fst ?m"
    using nm by (auto simp: map_eq_conv)
  have 1: "distinct (map ewinner (extractWinnersFromTable table defaultBid))"
    unfolding extractWinnersFromTable_def names using dist .
  have 2: "\<forall>e \<in> set (extractWinnersFromTable table defaultBid).
            observedBids defaultBid table (ewinner e) \<noteq> [] \<and>
            ebid e = Some (Max (set (observedBids defaultBid table (ewinner e))))"
    using ent by (fastforce simp: extractWinnersFromTable_def)
  have 3: "name \<in> ewinner ` set (extractWinnersFromTable table defaultBid)"
    if "observedBids defaultBid table name \<noteq> []" for name
  proof -
    from look[of name] that
    have "map_of ?m name = Some \<lparr>ewinner = name, ebid = Some (Max (set (observedBids defaultBid table name)))\<rparr>"
      by simp
    then have "(name, \<lparr>ewinner = name, ebid = Some (Max (set (observedBids defaultBid table name)))\<rparr>) \<in> set ?m"
      by (rule map_of_SomeD)
    then show ?thesis by (force simp: extractWinnersFromTable_def)
  qed
  from 1 2 3 show ?thesis by blast
qed

theorem highest_bid_kept_witness:
  "positiveBid (Some 1000) \<and>
   extractWinnersFromTable historyTable (Some 1000) =
     [\<lparr>ewinner = ''Bob'', ebid = Some 1000\<rparr>, \<lparr>ewinner = ''Sue'', ebid = Some 800\<rparr>] \<and>
   observedBids (Some 1000) historyTable ''Bob'' = [500, 1000, 700] \<and>
   observedBids (Some 1000) historyTable ''Sue'' = [800] \<and>
   distinct (map ewinner (extractWinnersFromTable historyTable (Some 1000))) \<and>
   ''Bob'' \<in> ewinner ` set (extractWinnersFromTable historyTable (Some 1000))"
proof -
  have a: "positiveBid (Some 1000)" by code_simp
  have b: "extractWinnersFromTable historyTable (Some 1000) =
     [\<lparr>ewinner = ''Bob'', ebid = Some 1000\<rparr>, \<lparr>ewinner = ''Sue'', ebid = Some 800\<rparr>]" by code_simp
  have c: "observedBids (Some 1000) historyTable ''Bob'' = [500, 1000, 700]"
    "observedBids (Some 1000) historyTable ''Sue'' = [800]" by code_simp+
  from highest_bid_kept [OF a, of historyTable]
  have d: "distinct (map ewinner (extractWinnersFromTable historyTable (Some 1000)))"
    and e: "\<forall>name. observedBids (Some 1000) historyTable name \<noteq> [] \<longrightarrow>
            name \<in> ewinner ` set (extractWinnersFromTable historyTable (Some 1000))"
    by blast+
  from e c(1) have "''Bob'' \<in> ewinner ` set (extractWinnersFromTable historyTable (Some 1000))"
    by (metis list.distinct(1))
  with a b c d show ?thesis by blast
qed

text \<open>
  C6 as stated fails: the second row of Sue shows no bid, counts with the default bid 1000
  and overwrites the recorded bid 800; no row shows the bid 1000 for Sue.
\<close>

theorem missing_bid_counterexample:
  "cellBid (snd (findNameAndBidCell (tds (bidRow ''Sue'' [])))) = None \<and>
   scanRow (Some 1000) (bidRow ''Sue'' []) = Some (''Sue'', Some 1000) \<and>
   scanRow (Some 1000) (bidRow ''Sue'' ''800'') = Some (''Sue'', Some 800) \<and>
   extractWinnersFromTable missingBidTable (Some 1000) = [\<lparr>ewinner = ''Sue'', ebid = Some 1000\<rparr>]"
  by code_simp

section \<open>Every listed bidder carries a bid\<close>



lemma digit_not_space: "isDigit c \<Longrightarrow> \<not> isSpace c \<and> c \<noteq> CHR ''-'' \<and> c \<noteq> CHR ''+'' \<and> c \<noteq> CHR ''x'' \<and> c \<noteq> CHR ''X''"
  by (auto simp: isDigit_def isSpace_def)

lemma parseInt_digits:
  assumes "allDigits ds"
  shows "parseInt ds = Some (int (digitsVal ds))"
proof -
  from assms obtain c cs where ds: "ds = c # cs" and all: "\<forall>d \<in> set ds. isDigit d"
    by (cases ds) (auto simp: allDigits_def)
  have c: "isDigit c" using ds all by simp
  have tw: "takeWhile isDigit ds = ds" using all by (simp add: takeWhile_eq_all_conv)
  have nx: "take 2 ds \<noteq> ''0x'' \<and> take 2 ds \<noteq> ''0X''"
  proof (cases cs)
    case Nil
    with ds show ?thesis by simp
  next
    case (Cons e es)
    with ds all have "isDigit e" by simp
    with digit_not_space[of e] Cons ds show ?thesis by auto
  qed
  have ne: "ds \<noteq> []" using ds by simp
  have pm: "parseMagnitude ds = Some (digitsVal ds)"
    using nx ne by (simp add: parseMagnitude_def Let_def tw)
  have "dropWhile isSpace ds = ds" using digit_not_space[OF c] ds by simp
  then have "parseInt ds = (case ds of [] \<Rightarrow> None | c # r \<Rightarrow>
          if c = CHR ''-'' then map_option (\<lambda>n. - int n) (parseMagnitude r)
          else if c = CHR ''+'' then map_option int (parseMagnitude r)
          else map_option int (parseMagnitude ds))"
    by (simp add: parseInt_def)
  also have "\<dots> = map_option int (parseMagnitude ds)"
    using digit_not_space[OF c] by (simp add: ds)
  finally show ?thesis using pm by simp
qed

lemma numberTail_digits: "numberTail sep s = Some ds \<Longrightarrow> allDigits ds"
  by (auto simp: numberTail_def Let_def split: list.splits if_splits)

lemma lazyPrefix_result: "lazyPrefix m pre s = Some g \<Longrightarrow> \<exists>cs. m cs = Some (snd g)"
  by (induction m pre s rule: lazyPrefix.induct) (auto split: if_splits option.splits)

lemma parseWinnerBid_bid: "parseWinnerBid t = Some wb \<Longrightarrow> snd wb \<noteq> None"
proof -
  assume "parseWinnerBid t = Some wb"
  then obtain g where g: "lazyPrefix (numberTail CHR ''-'') [] t = Some g" and wb: "snd wb = parseInt (snd g)"
    by (auto simp: parseWinnerBid_def)
  from lazyPrefix_result[OF g] numberTail_digits have "allDigits (snd g)" by blast
  with parseInt_digits wb show ?thesis by simp
qed

lemma parsePart_bid: "parsePart bidAmt part = Some e \<Longrightarrow> ebid e \<noteq> None"
  using parseWinnerBid_bid
  by (auto simp: parsePart_def truthy_def split: option.splits if_splits)

text \<open>Every listed bidder carries a bid.\<close>

lemma strategyTabOffset_bids:
  assumes "\<forall>w \<in> set (stWinners st). ebid w \<noteq> None"
  shows "\<forall>w \<in> set (stWinners (strategyTabOffset t st)). ebid w \<noteq> None"
  using assms parsePart_bid
  by (auto simp: strategyTabOffset_def Let_def List.map_filter_def split: if_splits)

lemma strategyTabOffset_amount: "stBidAmount (strategyTabOffset t st) = stBidAmount st"
  by (simp add: strategyTabOffset_def Let_def)

lemma extractWinnersFromTable_bids:
  assumes "positiveBid defaultBid"
  shows "\<forall>e \<in> set (extractWinnersFromTable table defaultBid). ebid e \<noteq> None"
proof
  fix e
  assume "e \<in> set (extractWinnersFromTable table defaultBid)"
  then obtain k where ke: "(k, e) \<in> set (scanRows defaultBid table)"
    by (auto simp: extractWinnersFromTable_def)
  from scanRows_highest[OF assms, of table]
  have dist: "distinct (map fst (scanRows defaultBid table))"
    and look: "map_of (scanRows defaultBid table) k =
        (if bidsOf (List.map_filter (scanRow defaultBid) table) k = [] then None
         else Some \<lparr>ewinner = k, ebid = Some (Max (set (bidsOf (List.map_filter (scanRow defaultBid) table) k)))\<rparr>)"
    by (auto simp: holdsHighest_def)
  from ke dist have "map_of (scanRows defaultBid table) k = Some e" by simp
  with look show "ebid e \<noteq> None" by (auto split: if_splits)
qed

lemma adoptTableWinner_amount:
  "positiveBid (stBidAmount st) \<Longrightarrow> positiveBid (stBidAmount (adoptTableWinner tw st))"
  by (simp add: adoptTableWinner_def)

lemma adoptTableWinner_winners: "stWinners (adoptTableWinner tw st) = stWinners st"
  by (simp add: adoptTableWinner_def)



lemma findWinnerRow_positive: "findWinnerRow win rows = Some b \<Longrightarrow> b > 0"
  by (induction win rows rule: findWinnerRow.induct)
     (auto simp: positiveBid_def split: if_splits option.splits)

lemma strategyBidsTable_bids:
  assumes "positiveBid (stBidAmount st)" "\<forall>w \<in> set (stWinners st). ebid w \<noteq> None"
  shows "positiveBid (stBidAmount (strategyBidsTable table st)) \<and>
         (\<forall>w \<in> set (stWinners (strategyBidsTable table st)). ebid w \<noteq> None)"
proof -
  let ?ex = "extractWinnersFromTable table (stBidAmount st)"
  have ex: "\<forall>e \<in> set ?ex. ebid e \<noteq> None"
    by (rule extractWinnersFromTable_bids[OF assms(1)])
  show ?thesis
  proof (cases "length ?ex > 1")
    case True
    with assms(1) ex show ?thesis by (simp add: strategyBidsTable_def Let_def)
  next
    case short: False
    show ?thesis
    proof (cases "length ?ex = 1")
      case True
      with short ex adoptTableWinner_amount[OF assms(1), of "hd ?ex"] show ?thesis
        by (simp add: strategyBidsTable_def Let_def)
    next
      case False
      show ?thesis
      proof (cases "truthyStr (stWinner st)")
        case no: False
        with short False assms show ?thesis by (simp add: strategyBidsTable_def Let_def)
      next
        case True
        show ?thesis
        proof (cases "findWinnerRow (the (stWinner st)) table")
          case None
          with short False True assms show ?thesis by (simp add: strategyBidsTable_def Let_def)
        next
          case (Some b)
          from findWinnerRow_positive[OF Some] have "positiveBid (Some b)" by (simp add: positiveBid_def)
          with short False True Some show ?thesis by (simp add: strategyBidsTable_def Let_def)
        qed
      qed
    qed
  qed
qed


lemma strategyCap_bids: "strategyCap tables = Some cap \<Longrightarrow> \<forall>w \<in> set cap. ebid w \<noteq> None"
proof (induction tables)
  case Nil
  then show ?case by simp
next
  case (Cons t ts)
  have "\<forall>w \<in> set (List.map_filter capRow t). ebid w \<noteq> None"
    by (auto simp: List.map_filter_def capRow_def split: if_splits option.splits)
  with Cons show ?case by (auto simp: Let_def split: if_splits)
qed



lemma strategyPanelTables_bids:
  assumes "positiveBid (stBidAmount st)" "\<forall>w \<in> set (stWinners st). ebid w \<noteq> None"
  shows "positiveBid (stBidAmount (strategyPanelTables tables st)) \<and>
         (\<forall>w \<in> set (stWinners (strategyPanelTables tables st)). ebid w \<noteq> None)"
  using assms
proof (induction tables arbitrary: st)
  case Nil
  then show ?case by simp
next
  case (Cons table tables)
  let ?ex = "extractWinnersFromTable table (stBidAmount st)"
  have ex: "\<forall>e \<in> set ?ex. ebid e \<noteq> None"
    by (rule extractWinnersFromTable_bids[OF Cons.prems(1)])
  show ?case
  proof (cases "tableHasCharacterLinks table")
    case False
    with Cons.IH[OF Cons.prems] show ?thesis by simp
  next
    case links: True
    show ?thesis
    proof (cases "length ?ex > 1")
      case long: True
      show ?thesis
      proof (cases "allSameBid ?ex \<and> positiveBid (ebid (hd ?ex))")
        case True
        with links long Cons.prems ex show ?thesis by (simp add: Let_def)
      next
        case False
        let ?st = "if length (stWinners st) = 0 then st\<lparr>stWinners := ?ex\<rparr> else st"
        have p: "positiveBid (stBidAmount ?st)" "\<forall>w \<in> set (stWinners ?st). ebid w \<noteq> None"
          using Cons.prems ex by auto
        from Cons.IH[OF p] links long False show ?thesis by (auto simp: Let_def)
      qed
    next
      case short: False
      show ?thesis
      proof (cases "length ?ex = 1")
        case True
        let ?st = "(adoptTableWinner (hd ?ex) st)\<lparr>stWinners := ?ex\<rparr>"
        have p: "positiveBid (stBidAmount ?st)" "\<forall>w \<in> set (stWinners ?st). ebid w \<noteq> None"
          using adoptTableWinner_amount[OF Cons.prems(1)] ex by auto
        from Cons.IH[OF p] links short True show ?thesis by (simp add: Let_def)
      next
        case False
        from Cons.IH[OF Cons.prems] links short False show ?thesis by (simp add: Let_def)
      qed
    qed
  qed
qed

lemma strategiesOnPanel_bids:
  assumes "positiveBid (stBidAmount st1)" "\<forall>w \<in> set (stWinners st1). ebid w \<noteq> None"
  shows "\<forall>w \<in> set (stWinners (strategiesOnPanel tabPanel st1)). ebid w \<noteq> None"
proof -
  define st2 where "st2 = (case tabPanel of
                             Some (bidsTable # _) \<Rightarrow> strategyBidsTable bidsTable st1
                           | _ \<Rightarrow> st1)"
  have b2: "positiveBid (stBidAmount st2) \<and> (\<forall>w \<in> set (stWinners st2). ebid w \<noteq> None)"
    using assms strategyBidsTable_bids[OF assms]
    by (auto simp: st2_def split: option.splits list.splits)
  have "strategiesOnPanel tabPanel st1 =
          (case tabPanel of
             Some tables \<Rightarrow>
               if length (stWinners st2) \<le> 1 then strategyPanelTables tables st2 else st2
           | None \<Rightarrow> st2)"
    unfolding strategiesOnPanel_def st2_def Let_def by (rule refl)
  with b2 strategyPanelTables_bids[of st2] show ?thesis
    by (auto split: option.splits)
qed

lemma strategiesTabPanel_bids:
  assumes "strategiesTabPanel d st1 = Some st3" "\<forall>w \<in> set (stWinners st1). ebid w \<noteq> None"
  shows "\<forall>w \<in> set (stWinners st3). ebid w \<noteq> None"
proof (cases "truthy (stBidAmount st1) \<and> positiveBid (stBidAmount st1)")
  case False
  with assms show ?thesis by (auto simp: strategiesTabPanel_def)
next
  case True
  then have p: "positiveBid (stBidAmount st1)" by simp
  from assms(1) True obtain tabPanel where "st3 = strategiesOnPanel tabPanel st1"
    by (auto simp: strategiesTabPanel_def split: if_splits option.splits)
  with strategiesOnPanel_bids[OF p assms(2)] show ?thesis by simp
qed

lemma strategyCapPanel_bids:
  assumes "strategyCapPanel d st3 = Some st" "\<forall>w \<in> set (stWinners st3). ebid w \<noteq> None"
  shows "\<forall>w \<in> set (stWinners st). ebid w \<noteq> None"
  using assms strategyCap_bids
  by (auto simp: strategyCapPanel_def split: if_splits option.splits)

lemma scanTab_bids:
  assumes "scanTab d = Some st"
  shows "\<forall>w \<in> set (stWinners st). ebid w \<noteq> None"
proof -
  define winnerText where "winnerText = (case tabOffsetText d of Some t \<Rightarrow> trim t | None \<Rightarrow> [])"
  define wb where "wb = (if winnerText \<noteq> [] then parseWinnerBid winnerText else None)"
  define st0 where "st0 = \<lparr>stWinners = [], stRollOffBid = None,
                 stWinner = map_option fst wb,
                 stBidAmount = (case wb of Some p \<Rightarrow> snd p | None \<Rightarrow> None)\<rparr>"
  define st1 where "st1 = strategyTabOffset winnerText st0"
  have s: "scanTab d =
      (case strategiesTabPanel d st1 of
           None \<Rightarrow> None
         | Some st3 \<Rightarrow> strategyCapPanel d st3)"
    unfolding scanTab_def st1_def st0_def wb_def winnerText_def Let_def
    by (rule refl)
  have b1: "\<forall>w \<in> set (stWinners st1). ebid w \<noteq> None"
    unfolding st1_def by (rule strategyTabOffset_bids) (simp add: st0_def)
  from assms s obtain st3 where st3: "strategiesTabPanel d st1 = Some st3" "strategyCapPanel d st3 = Some st"
    by (auto split: option.splits)
  from strategyCapPanel_bids[OF st3(2) strategiesTabPanel_bids[OF st3(1) b1]]
  show ?thesis .
qed

section \<open>Properties of the roll-off test and of the actual winners\<close>



lemma table_resolved: "extractTableContext d = Some ctx \<Longrightarrow> winnersResolved ctx"
  by (auto simp: extractTableContext_def tableContext_def winnersResolved_def biddersOf_def Let_def
           split: option.splits if_splits)

lemma tab_resolved: "extractTimerContext t = Some ctx \<Longrightarrow> winnersResolved ctx"
  by (auto simp: extractTimerContext_def timerContext_def winnersResolved_def biddersOf_def Let_def
           split: if_splits option.splits)

lemma tab_not_table: "extractTimerContext t = Some ctx \<Longrightarrow> \<not> isTableStructure ctx"
  by (auto simp: extractTimerContext_def timerContext_def Let_def split: if_splits option.splits)

text \<open>An exception of a selector ends extractTimerContext with null.\<close>

lemma selector_exception_returns_null: "extractTimerContext brokenTab = None"
  by code_simp

lemma sameBidRows_bid: "w \<in> set (sameBidRows rows b) \<Longrightarrow> ebid w = b \<and> b \<noteq> None"
  by (auto simp: sameBidRows_def)

lemma tableContext_bidders:
  "(\<forall>w \<in> set (biddersOf (tableContext cells rows)).
      ebid w = bidAmount (tableContext cells rows) \<and> bidAmount (tableContext cells rows) \<noteq> None) \<and>
   rollOffBid (tableContext cells rows) =
     (if length (biddersOf (tableContext cells rows)) > 1 then bidAmount (tableContext cells rows) else None)"
  using sameBidRows_bid
  by (auto simp: tableContext_def biddersOf_def Let_def split: option.splits)

lemma table_bidders:
  assumes "extractTableContext d = Some ctx"
  shows "(\<forall>w \<in> set (biddersOf ctx). ebid w = bidAmount ctx \<and> bidAmount ctx \<noteq> None) \<and>
         rollOffBid ctx = (if length (biddersOf ctx) > 1 then bidAmount ctx else None)"
proof -
  from assms obtain cells where "ctx = tableContext cells (parentRows d)"
    by (auto simp: extractTableContext_def split: option.splits if_splits)
  then show ?thesis using tableContext_bidders[of cells "parentRows d"] by simp
qed

lemma timerContext_bidders: "biddersOf (timerContext t st) = stWinners st"
  by (simp add: timerContext_def biddersOf_def Let_def)

lemma context_bids:
  assumes "extractTableContext d = Some ctx \<or> extractTimerContext t = Some ctx"
  shows "\<forall>w \<in> set (biddersOf ctx). ebid w \<noteq> None"
  using assms
proof
  assume "extractTableContext d = Some ctx"
  from table_bidders[OF this] show ?thesis by auto
next
  assume "extractTimerContext t = Some ctx"
  then obtain st where "scanTab t = Some st" "ctx = timerContext t st"
    by (auto simp: extractTimerContext_def split: if_splits option.splits)
  then show ?thesis using scanTab_bids[of t st] by (simp add: timerContext_bidders)
qed

lemma topBidCount_same:
  assumes "\<forall>w \<in> set rws. ebid w = b"
  shows "topBidCount rws = length rws"
proof (cases "rws = []")
  case True
  then show ?thesis by (simp add: topBidCount_def)
next
  case False
  have c: "\<forall>w \<in> set rws. bidOr0 w = (case b of None \<Rightarrow> 0 | Some v \<Rightarrow> v)"
    using assms by (simp add: bidOr0_def)
  then have "set (map bidOr0 rws) = {case b of None \<Rightarrow> 0 | Some v \<Rightarrow> v}"
    using False by (cases rws) auto
  with c show ?thesis by (simp add: topBidCount_def)
qed

lemma topBidders_same:
  assumes "\<forall>w \<in> set rws. ebid w = b"
  shows "topBidders rws = rws"
proof (cases "rws = []")
  case True
  then show ?thesis by (simp add: topBidders_def)
next
  case False
  have c: "\<forall>w \<in> set rws. bidOr0 w = (case b of None \<Rightarrow> 0 | Some v \<Rightarrow> v)"
    using assms by (simp add: bidOr0_def)
  then have "set (map bidOr0 rws) = {case b of None \<Rightarrow> 0 | Some v \<Rightarrow> v}"
    using False by (cases rws) auto
  with c show ?thesis by (simp add: topBidders_def)
qed

lemma table_rolloff_iff:
  assumes "extractTableContext d = Some ctx" "quantity ctx = Some n" "n \<ge> 1"
  shows "isRollOff ctx \<longleftrightarrow> topBidCount (biddersOf ctx) > n"
proof -
  let ?rws = "biddersOf ctx"
  from table_bidders[OF assms(1)]
  have same: "\<forall>w \<in> set ?rws. ebid w = bidAmount ctx \<and> bidAmount ctx \<noteq> None"
    and rob: "rollOffBid ctx = (if length ?rws > 1 then bidAmount ctx else None)"
    by auto
  from same have t: "topBidCount ?rws = length ?rws"
    by (intro topBidCount_same[of _ "bidAmount ctx"]) auto
  have "bidAmount ctx \<noteq> None" if "length ?rws > 1"
    using that same by (cases ?rws) auto
  with rob have "rollOffBid ctx \<noteq> None" if "length ?rws > 1"
    using that by simp
  moreover from table_resolved[OF assms(1)]
  have "isRollOff ctx = computeIsRollOff ?rws (rollOffBid ctx) (quantity ctx)"
    by (simp add: winnersResolved_def)
  ultimately show ?thesis
    using t assms(2,3) by (auto simp: computeIsRollOff_def quantityOr1_def)
qed

lemma Max_bid_attained:
  assumes "rws \<noteq> []"
  shows "filter (\<lambda>w. bidOr0 w = Max (set (map bidOr0 rws))) rws \<noteq> []"
proof -
  have "Max (set (map bidOr0 rws)) \<in> set (map bidOr0 rws)"
    using assms by (intro Max_in) auto
  then obtain w where "w \<in> set rws" "bidOr0 w = Max (set (map bidOr0 rws))" by auto
  then show ?thesis by (auto simp: filter_empty_conv)
qed

lemma filter_bid_eq:
  assumes "\<forall>w \<in> set rws. ebid w \<noteq> None"
  shows "filter (\<lambda>w. ebid w = Some b) rws = filter (\<lambda>w. bidOr0 w = b) rws"
  using assms by (intro filter_cong) (auto simp: bidOr0_def split: option.splits)

lemma single_winner:
  assumes "rws \<noteq> []" "\<forall>w \<in> set rws. ebid w \<noteq> None" "truthy b"
  shows "computeActualWinners False rws b (Some 1) win =
           [hd (filter (\<lambda>w. bidOr0 w = Max (set (map bidOr0 rws))) rws)]"
proof -
  let ?aw = "filter (\<lambda>w. bidOr0 w = Max (set (map bidOr0 rws))) rws"
  have ne: "?aw \<noteq> []" by (rule Max_bid_attained[OF assms(1)])
  have "length ?aw \<le> 1 \<Longrightarrow> ?aw = [hd ?aw]"
    using ne by (cases ?aw) auto
  then show ?thesis
    using assms ne by (auto simp: computeActualWinners_def Let_def filter_bid_eq)
qed

lemma multi_winner:
  assumes "n > 1" "length rws \<ge> n" "truthy b"
  shows "computeActualWinners False rws b (Some n) win = take n (sort_key (\<lambda>w. - bidOr0 w) rws)"
  using assms by (auto simp: computeActualWinners_def)

text \<open>
  C5, as amended.  For a context of either extractor: with a roll-off in which every listed
  bidder holds the recorded roll-off bid, as is always the case in the table shape,
  actualWinners is the roll-off participant set, that is, the bidders at the top bid, and
  they are more than the quantity.  Without a roll-off, when a bid amount was parsed, the
  quantity is at least 1 and the bidder list has at least that many entries, actualWinners
  has exactly quantity entries: the first entries of the stable sort by descending bid for
  a quantity above 1, and the first bidder at the highest bid for the quantity 1.
\<close>

theorem actual_winners_count:
  assumes "extractTableContext d = Some ctx \<or> extractTimerContext t = Some ctx"
  shows "(isRollOff ctx \<and>
          (isTableStructure ctx \<or> (\<forall>w \<in> set (biddersOf ctx). ebid w = rollOffBid ctx)) \<longrightarrow>
            actualWinners ctx = Some (topBidders (biddersOf ctx)) \<and>
            length (topBidders (biddersOf ctx)) > quantityOr1 (quantity ctx) \<and>
            (\<forall>n. quantity ctx = Some n \<longrightarrow> length (topBidders (biddersOf ctx)) > n)) \<and>
         (\<not> isRollOff ctx \<and> truthy (bidAmount ctx) \<and> quantity ctx = Some n \<and> n \<ge> 1 \<and>
          length (biddersOf ctx) \<ge> n \<longrightarrow>
            (\<exists>aw. actualWinners ctx = Some aw \<and> length aw = n \<and>
               (n > 1 \<longrightarrow> aw = take n (sort_key (\<lambda>w. - bidOr0 w) (biddersOf ctx))) \<and>
               (n = 1 \<longrightarrow> aw = [hd (filter (\<lambda>w. bidOr0 w = Max (set (map bidOr0 (biddersOf ctx))))
                                           (biddersOf ctx))])))"
proof -
  from assms have res: "winnersResolved ctx"
    using table_resolved tab_resolved by blast
  have roll: "actualWinners ctx = Some (topBidders (biddersOf ctx)) \<and>
            length (topBidders (biddersOf ctx)) > quantityOr1 (quantity ctx) \<and>
            (\<forall>n. quantity ctx = Some n \<longrightarrow> length (topBidders (biddersOf ctx)) > n)"
    if ro: "isRollOff ctx"
      and shape: "isTableStructure ctx \<or> (\<forall>w \<in> set (biddersOf ctx). ebid w = rollOffBid ctx)"
  proof -
    from res ro have c: "computeIsRollOff (biddersOf ctx) (rollOffBid ctx) (quantity ctx)"
      by (simp add: winnersResolved_def)
    then have len: "length (biddersOf ctx) > 1" "length (biddersOf ctx) > quantityOr1 (quantity ctx)"
      by (auto simp: computeIsRollOff_def)
    have same: "\<forall>w \<in> set (biddersOf ctx). ebid w = rollOffBid ctx"
    proof (cases "isTableStructure ctx")
      case True
      with assms tab_not_table have "extractTableContext d = Some ctx" by blast
      from table_bidders[OF this] len(1) show ?thesis by simp
    next
      case False
      with shape show ?thesis by simp
    qed
    then have top: "topBidders (biddersOf ctx) = biddersOf ctx"
      by (rule topBidders_same)
    from res ro len(1) have 2: "actualWinners ctx = Some (biddersOf ctx)"
      by (auto simp: winnersResolved_def computeActualWinners_def Let_def)
    from len(2) have 3: "\<forall>n. quantity ctx = Some n \<longrightarrow> length (biddersOf ctx) > n"
      by (auto simp: quantityOr1_def split: if_splits)
    from 2 3 len top show ?thesis by simp
  qed
  have plain: "\<exists>aw. actualWinners ctx = Some aw \<and> length aw = n \<and>
               (n > 1 \<longrightarrow> aw = take n (sort_key (\<lambda>w. - bidOr0 w) (biddersOf ctx))) \<and>
               (n = 1 \<longrightarrow> aw = [hd (filter (\<lambda>w. bidOr0 w = Max (set (map bidOr0 (biddersOf ctx))))
                                           (biddersOf ctx))])"
    if h: "\<not> isRollOff ctx" "truthy (bidAmount ctx)" "quantity ctx = Some n" "n \<ge> 1"
      "length (biddersOf ctx) \<ge> n"
  proof (cases "n = 1")
    case True
    from h(4,5) have ne: "biddersOf ctx \<noteq> []" by auto
    from single_winner[OF ne context_bids[OF assms] h(2), of "winner ctx"] res h(1,3) True
    show ?thesis by (simp add: winnersResolved_def Let_def)
  next
    case False
    with h(4) have n: "n > 1" by simp
    from n h(5) have "biddersOf ctx \<noteq> []" by auto
    then have "sort_key (\<lambda>w. - bidOr0 w) (biddersOf ctx) \<noteq> []"
      by (metis length_sort length_0_conv)
    with multi_winner[OF n h(5) h(2), of "winner ctx"] res h(1,3,5) n
    show ?thesis by (simp add: winnersResolved_def Let_def)
  qed
  from roll plain show ?thesis by blast
qed

text \<open>
  C4.  In the tab shape a tie at the top bid is not a roll-off when the bids table also holds
  a lower bid: for one sword with Bob and Sue at 1000 and Amy at 800, two bidders share the
  top bid, isRollOff is false and Bob alone is the actual winner.  extractTableContext
  reports a roll-off between Bob and Sue for the same three rows.
\<close>

theorem mixed_bids_hide_rolloff:
  "extractTimerContext tieTab = Some tieTabContext \<and>
   quantity tieTabContext = Some 1 \<and>
   biddersOf tieTabContext = [bob1000, sue1000, amy800] \<and>
   topBidCount (biddersOf tieTabContext) = 2 \<and>
   \<not> isRollOff tieTabContext \<and>
   actualWinners tieTabContext = Some [bob1000] \<and>
   extractTableContext (tieDom ''Sword x 1'') = Some tieContextOne \<and>
   isRollOff tieContextOne"
  by code_simp

text \<open>
  C5 as stated fails in both halves.  The tab header \<open>Ann - 5, Ben - 6, Cid\<close> gives two
  bidders for one item and no roll-off, and actualWinners is undefined, because no bid
  amount was parsed from the header.  The tab header \<open>Bob - 1000, Sue - 1000\<close> over a bids
  table with Bob and Sue at 1000 and Amy at 800 gives a roll-off whose participants are Bob
  and Sue, and actualWinners holds Amy as well.
\<close>

theorem actual_winners_counterexample:
  "extractTimerContext listTab = Some listTabContext \<and>
   \<not> isRollOff listTabContext \<and>
   quantity listTabContext = Some 1 \<and>
   length (remdups (map ewinner (biddersOf listTabContext))) = 2 \<and>
   actualWinners listTabContext = None \<and>
   extractTimerContext staleTab = Some staleTabContext \<and>
   isRollOff staleTabContext \<and>
   topBidders (biddersOf staleTabContext) = [bob1000, sue1000] \<and>
   actualWinners staleTabContext = Some [bob1000, sue1000, amy800]"
  by code_simp

lemma tie_two_extract: "extractTableContext (tieDom ''Sword x 2'') = Some tieContextTwo"
  by code_simp

theorem actual_winners_count_witness:
  "extractTableContext (tieDom ''Sword x 1'') = Some tieContextOne \<and> isRollOff tieContextOne \<and>
   isTableStructure tieContextOne \<and> topBidders (biddersOf tieContextOne) = [bob1000, sue1000] \<and>
   actualWinners tieContextOne = Some [bob1000, sue1000] \<and> quantity tieContextOne = Some 1 \<and>
   extractTimerContext pairTab = Some pairTabContext \<and> isRollOff pairTabContext \<and>
   biddersOf pairTabContext = [bob1000, sue1000] \<and> rollOffBid pairTabContext = Some 1000 \<and>
   actualWinners pairTabContext = Some [bob1000, sue1000] \<and> quantity pairTabContext = Some 1 \<and>
   extractTableContext (tieDom ''Sword x 2'') = Some tieContextTwo \<and> \<not> isRollOff tieContextTwo \<and>
   truthy (bidAmount tieContextTwo) \<and> quantity tieContextTwo = Some 2 \<and>
   length (biddersOf tieContextTwo) \<ge> 2 \<and>
   (\<exists>aw. actualWinners tieContextTwo = Some aw \<and> length aw = 2) \<and>
   extractTimerContext tieTab = Some tieTabContext \<and> \<not> isRollOff tieTabContext \<and>
   truthy (bidAmount tieTabContext) \<and> quantity tieTabContext = Some 1 \<and>
   length (biddersOf tieTabContext) \<ge> 1 \<and>
   (\<exists>aw. actualWinners tieTabContext = Some aw \<and> length aw = 1)"
proof -
  have a1: "extractTableContext (tieDom ''Sword x 1'') = Some tieContextOne" by code_simp
  have a2: "isRollOff tieContextOne" "quantity tieContextOne = Some 1"
    "isTableStructure tieContextOne" "topBidders (biddersOf tieContextOne) = [bob1000, sue1000]"
    by code_simp+
  from actual_winners_count [of "tieDom ''Sword x 1''" tieContextOne noTab 1] a1 a2
  have a3: "actualWinners tieContextOne = Some [bob1000, sue1000]" by simp
  have p1: "extractTimerContext pairTab = Some pairTabContext" by code_simp
  have p2: "isRollOff pairTabContext" "quantity pairTabContext = Some 1"
    "biddersOf pairTabContext = [bob1000, sue1000]" "rollOffBid pairTabContext = Some 1000"
    "topBidders [bob1000, sue1000] = [bob1000, sue1000]"
    by code_simp+
  have p3: "\<forall>w \<in> set (biddersOf pairTabContext). ebid w = rollOffBid pairTabContext"
    unfolding p2 by (simp add: bob1000_def sue1000_def)
  from actual_winners_count [of talismanDom pairTabContext pairTab 1] p1 p2(1) p3
  have "actualWinners pairTabContext = Some (topBidders (biddersOf pairTabContext))" by blast
  then have p4: "actualWinners pairTabContext = Some [bob1000, sue1000]"
    unfolding p2 .
  have b1: "extractTableContext (tieDom ''Sword x 2'') = Some tieContextTwo" by code_simp
  have b2: "\<not> isRollOff tieContextTwo" "truthy (bidAmount tieContextTwo)"
    "quantity tieContextTwo = Some 2" "length (biddersOf tieContextTwo) \<ge> 2" by code_simp+
  from actual_winners_count [of "tieDom ''Sword x 2''" tieContextTwo noTab 2] b1 b2
  have b3: "\<exists>aw. actualWinners tieContextTwo = Some aw \<and> length aw = 2" by auto
  have c1: "extractTimerContext tieTab = Some tieTabContext" by code_simp
  have c2: "\<not> isRollOff tieTabContext" "truthy (bidAmount tieTabContext)"
    "quantity tieTabContext = Some 1" "length (biddersOf tieTabContext) \<ge> 1" by code_simp+
  from actual_winners_count [of talismanDom tieTabContext tieTab 1] c1 c2
  have c3: "\<exists>aw. actualWinners tieTabContext = Some aw \<and> length aw = 1" by auto
  from a1 a2 a3 p1 p2 p4 b1 b2 b3 c1 c2 c3 show ?thesis by blast
qed

end
